theory Spec2Isabelle
  imports Main "HOL-Library.Sublist" "HOL-Library.Multiset" "HOL-Library.AList"
begin

section \<open>Payload capture for the audit log (package common)\<close>

text \<open>
  A Go string is represented by the sequence of its code points, which is what the
  capture code counts (\<^verbatim>\<open>[]rune(value)\<close>); for well-formed UTF-8 text the two
  conversions \<^verbatim>\<open>[]rune(s)\<close> and \<^verbatim>\<open>string(rs)\<close> are inverse to each other, so
  slicing and counting code points are \<open>take\<close> and \<open>length\<close> on that sequence and
  string concatenation is \<open>@\<close>. A byte slice is a list of byte values; it turns into
  a string through the UTF-8 decoder below.
\<close>

type_synonym rune = nat
type_synonym gostring = "rune list"
type_synonym bytes = "nat list"

definition str :: "string \<Rightarrow> gostring" where
  "str s = map of_char s"

subsection \<open>Decimal formatting (the \<^verbatim>\<open>%d\<close> verb of fmt.Sprintf)\<close>

fun digits :: "nat \<Rightarrow> gostring" where
  "digits n = (if n < 10 then [48 + n] else digits (n div 10) @ [48 + n mod 10])"

declare digits.simps [simp del]

subsection \<open>Constants\<close>

definition maxLogPayloadRunes :: nat where
  "maxLogPayloadRunes = 2048"

text \<open>The format \<^verbatim>\<open>"\<dots> [truncated %d chars]"\<close>; its first code point is U+2026.\<close>

definition truncatedSuffixFmt :: "nat \<Rightarrow> gostring" where
  "truncatedSuffixFmt n = 8230 # str '' [truncated '' @ digits n @ str '' chars]''"

definition truncatedSuffix :: "int \<Rightarrow> gostring" where
  "truncatedSuffix overflow =
     (let overflow = (if overflow < 0 then 0 else overflow)
      in truncatedSuffixFmt (nat overflow))"

definition applyLogLimit :: "gostring \<Rightarrow> gostring" where
  "applyLogLimit value =
     (let runes = value in
      if length runes \<le> maxLogPayloadRunes then value
      else (let trimmed = take maxLogPayloadRunes runes
            in trimmed @ truncatedSuffix (int (length runes) - int maxLogPayloadRunes)))"

subsection \<open>Standard-library functions the capture code calls\<close>

text \<open>
  \<^verbatim>\<open>utf8.DecodeRune\<close>: the code point at the head of a byte list and the number of
  bytes it occupies. A malformed or truncated sequence yields U+FFFD (65533) with
  width 1, as in Go.
\<close>

definition RuneError :: rune where
  "RuneError = 65533"

definition is_cont :: "nat \<Rightarrow> bool" where
  "is_cont b = (128 \<le> b \<and> b < 192)"

definition DecodeRune :: "bytes \<Rightarrow> rune \<times> nat" where
  "DecodeRune p =
     (case p of
        [] \<Rightarrow> (RuneError, 0)
      | b0 # bs \<Rightarrow>
      if b0 < 128 then (b0, 1)
      else if 194 \<le> b0 \<and> b0 < 224 then
        (case bs of
           b1 # _ \<Rightarrow> if is_cont b1 then ((b0 mod 32) * 64 + b1 mod 64, 2) else (RuneError, 1)
         | _ \<Rightarrow> (RuneError, 1))
      else if 224 \<le> b0 \<and> b0 < 240 then
        (case bs of
           b1 # b2 # _ \<Rightarrow>
             if (if b0 = 224 then 160 else 128) \<le> b1 \<and> b1 < (if b0 = 237 then 160 else 192)
                \<and> is_cont b2
             then ((b0 mod 16) * 4096 + (b1 mod 64) * 64 + b2 mod 64, 3)
             else (RuneError, 1)
         | _ \<Rightarrow> (RuneError, 1))
      else if 240 \<le> b0 \<and> b0 < 245 then
        (case bs of
           b1 # b2 # b3 # _ \<Rightarrow>
             if (if b0 = 240 then 144 else 128) \<le> b1 \<and> b1 < (if b0 = 244 then 144 else 192)
                \<and> is_cont b2 \<and> is_cont b3
             then ((b0 mod 8) * 262144 + (b1 mod 64) * 4096 + (b2 mod 64) * 64 + b3 mod 64, 4)
             else (RuneError, 1)
         | _ \<Rightarrow> (RuneError, 1))
      else (RuneError, 1))"

text \<open>
  The conversion \<^verbatim>\<open>[]rune(string(data))\<close> (also what \<^verbatim>\<open>range\<close> over a string
  visits), and \<^verbatim>\<open>utf8.Valid\<close>.
\<close>

fun runes_of_bytes :: "bytes \<Rightarrow> rune list" where
  "runes_of_bytes [] = []"
| "runes_of_bytes (b0 # bs) =
     fst (DecodeRune (b0 # bs)) # runes_of_bytes (drop (snd (DecodeRune (b0 # bs)) - 1) bs)"

fun utf8_Valid :: "bytes \<Rightarrow> bool" where
  "utf8_Valid [] = True"
| "utf8_Valid (b0 # bs) =
     ((b0 < 128 \<or> 1 < snd (DecodeRune (b0 # bs)))
      \<and> utf8_Valid (drop (snd (DecodeRune (b0 # bs)) - 1) bs))"

text \<open>
  \<^verbatim>\<open>unicode.IsPrint\<close> is only asked about code points below U+0020 here, none of which
  is printable; the Latin-1 part of Go's table is written out, nothing beyond it is used.
\<close>

definition unicode_IsPrint :: "rune \<Rightarrow> bool" where
  "unicode_IsPrint r = (32 \<le> r \<and> r \<le> 126 \<or> 161 \<le> r \<and> r \<le> 255 \<and> r \<noteq> 173)"

text \<open>\<^verbatim>\<open>unicode.IsSpace\<close> and \<^verbatim>\<open>strings.TrimSpace\<close>, \<^verbatim>\<open>strings.Contains\<close>.\<close>

definition unicode_IsSpace :: "rune \<Rightarrow> bool" where
  "unicode_IsSpace r =
     (9 \<le> r \<and> r \<le> 13 \<or> r = 32 \<or> r = 133 \<or> r = 160 \<or> r = 5760
      \<or> 8192 \<le> r \<and> r \<le> 8202 \<or> r = 8232 \<or> r = 8233 \<or> r = 8239 \<or> r = 8287
      \<or> r = 12288)"

definition strings_TrimSpace :: "gostring \<Rightarrow> gostring" where
  "strings_TrimSpace s = rev (dropWhile unicode_IsSpace (rev (dropWhile unicode_IsSpace s)))"

definition strings_Contains :: "gostring \<Rightarrow> gostring \<Rightarrow> bool" where
  "strings_Contains s substr = sublist substr s"

subsection \<open>The request context (gin.Context key/value store)\<close>

text \<open>
  The keys of package \<^verbatim>\<open>constant\<close> that the capture code names, and any other key.
  A stored value is a string, a list of string segments, a byte slice, or something
  else (kept as its \<^verbatim>\<open>%v\<close> rendering). The context pointer is taken to be non-nil.
\<close>

datatype ContextKey =
  ContextKeyLoggedRequestBody
| ContextKeyLoggedResponseBody
| ContextKeyLoggedRequestBodyFull
| ContextKeyLoggedResponseBodyFull
| ContextKeyOther string

datatype ctx_value =
  StringValue gostring
| SegmentsValue "gostring list"
| BytesValue bytes
| OtherValue gostring

type_synonym gin_Context = "ContextKey \<Rightarrow> ctx_value option"

definition GetString :: "gin_Context \<Rightarrow> ContextKey \<Rightarrow> gostring" where
  "GetString c key = (case c key of Some (StringValue s) \<Rightarrow> s | _ \<Rightarrow> [])"

subsection \<open>Full-payload slots\<close>

fun fullPayloadKeyFor :: "ContextKey \<Rightarrow> ContextKey option" where
  "fullPayloadKeyFor ContextKeyLoggedRequestBody = Some ContextKeyLoggedRequestBodyFull"
| "fullPayloadKeyFor ContextKeyLoggedResponseBody = Some ContextKeyLoggedResponseBodyFull"
| "fullPayloadKeyFor _ = None"

definition setFullPayload :: "gin_Context \<Rightarrow> ContextKey \<Rightarrow> gostring list \<Rightarrow> gin_Context" where
  "setFullPayload c previewKey segments =
     (case fullPayloadKeyFor previewKey of
        None \<Rightarrow> c
      | Some fullKey \<Rightarrow>
          if length segments = 0 then c(fullKey \<mapsto> SegmentsValue [])
          else c(fullKey \<mapsto> SegmentsValue segments))"

definition appendFullPayloadSegment :: "gin_Context \<Rightarrow> ContextKey \<Rightarrow> gostring \<Rightarrow> gin_Context" where
  "appendFullPayloadSegment c previewKey segment =
     (if segment = [] then c
      else case fullPayloadKeyFor previewKey of
        None \<Rightarrow> c
      | Some fullKey \<Rightarrow>
          (case c fullKey of
             Some (SegmentsValue payload) \<Rightarrow> c(fullKey \<mapsto> SegmentsValue (payload @ [segment]))
           | Some (StringValue payload) \<Rightarrow> c(fullKey \<mapsto> SegmentsValue [payload, segment])
           | _ \<Rightarrow> c(fullKey \<mapsto> SegmentsValue [segment])))"

definition GetFullPayloadString :: "gin_Context \<Rightarrow> ContextKey \<Rightarrow> gostring" where
  "GetFullPayloadString c key =
     (case c key of
        None \<Rightarrow> []
      | Some (SegmentsValue payload) \<Rightarrow> concat payload
      | Some (StringValue payload) \<Rightarrow> payload
      | Some (BytesValue payload) \<Rightarrow> runes_of_bytes payload
      | Some (OtherValue rendered) \<Rightarrow> rendered)"

text \<open>
  The segment list a slot holds, as \<^verbatim>\<open>appendFullPayloadSegment\<close> reads it: a stored
  list as it is, a stored single string as a one-element list, anything else as empty.
\<close>

definition fullSegments :: "gin_Context \<Rightarrow> ContextKey \<Rightarrow> gostring list" where
  "fullSegments c fullKey =
     (case c fullKey of
        Some (SegmentsValue payload) \<Rightarrow> payload
      | Some (StringValue payload) \<Rightarrow> [payload]
      | _ \<Rightarrow> [])"

subsection \<open>Previews\<close>

definition isBinaryPayload :: "bytes \<Rightarrow> bool" where
  "isBinaryPayload data =
     (if length data = 0 then False
      else if \<not> utf8_Valid data then True
      else (let sample = (if length data > 256 then take 256 data else data);
                controlCount = length (filter
                  (\<lambda>r. \<not> (r = 10 \<or> r = 13 \<or> r = 9) \<and> r < 32 \<and> \<not> unicode_IsPrint r)
                  (runes_of_bytes sample))
            in controlCount > length sample div 10))"

definition formatPayloadForLog :: "bytes \<Rightarrow> gostring" where
  "formatPayloadForLog data =
     (if length data = 0 then []
      else if isBinaryPayload data then
        str ''[binary payload omitted: '' @ digits (length data) @ str '' bytes]''
      else applyLogLimit (runes_of_bytes data))"

definition setPayloadIfEmpty :: "gin_Context \<Rightarrow> ContextKey \<Rightarrow> gostring \<Rightarrow> gin_Context" where
  "setPayloadIfEmpty c key value =
     (if value = [] then c
      else if GetString c key \<noteq> [] then c
      else c(key \<mapsto> StringValue value))"

text \<open>Each capture operation returns the preview together with the updated context.\<close>

definition CapturePayloadForLog :: "gin_Context \<Rightarrow> ContextKey \<Rightarrow> bytes \<Rightarrow> gostring \<times> gin_Context" where
  "CapturePayloadForLog c key data =
     (let preview = formatPayloadForLog data;
          c1 = setPayloadIfEmpty c key preview;
          c2 = (if length data > 0 \<and> \<not> isBinaryPayload data
                then setFullPayload c1 key [runes_of_bytes data] else c1)
      in (preview, c2))"

definition CapturePayloadStringForLog :: "gin_Context \<Rightarrow> ContextKey \<Rightarrow> gostring \<Rightarrow> gostring \<times> gin_Context" where
  "CapturePayloadStringForLog c key value =
     (if value = [] then ([], c)
      else (let preview = applyLogLimit value;
                c1 = setPayloadIfEmpty c key preview;
                c2 = setFullPayload c1 key [value]
            in (preview, c2)))"

definition AppendPayloadChunkForLog :: "gin_Context \<Rightarrow> ContextKey \<Rightarrow> gostring \<Rightarrow> gin_Context" where
  "AppendPayloadChunkForLog c key chunk0 =
     (let chunk = strings_TrimSpace chunk0 in
      if chunk = [] \<or> chunk = str ''[DONE]'' then c
      else (let existing = GetString c key in
        if existing = [] then
          appendFullPayloadSegment (c(key \<mapsto> StringValue (applyLogLimit chunk))) key chunk
        else if strings_Contains existing (str ''[truncated'') then
          appendFullPayloadSegment c key chunk
        else (let existingRunes = existing;
                  chunkRunes = chunk;
                  total = length existingRunes + length chunkRunes in
          if total \<le> maxLogPayloadRunes then
            appendFullPayloadSegment (c(key \<mapsto> StringValue (existing @ chunk))) key chunk
          else (let remaining = int maxLogPayloadRunes - int (length existingRunes) in
            if remaining \<le> 0 then
              (let suffix = truncatedSuffix (int (length chunkRunes)) in
               appendFullPayloadSegment
                 (c(key \<mapsto> StringValue (take maxLogPayloadRunes existingRunes @ suffix))) key chunk)
            else
              (let trimmedChunk = take (nat remaining) chunkRunes;
                   overflow = int total - int maxLogPayloadRunes in
               appendFullPayloadSegment
                 (c(key \<mapsto> StringValue (existing @ trimmedChunk @ truncatedSuffix overflow)))
                 key chunk)))))"

text \<open>A streaming sequence: the chunks are appended one after the other.\<close>

definition appendChunks :: "gin_Context \<Rightarrow> ContextKey \<Rightarrow> gostring list \<Rightarrow> gin_Context" where
  "appendChunks c key chunks = foldl (\<lambda>c chunk. AppendPayloadChunkForLog c key chunk) c chunks"


text \<open>The chunks of a streaming sequence that are kept: trimmed, and neither empty nor the sentinel.\<close>

definition keptChunks :: "gostring list \<Rightarrow> gostring list" where
  "keptChunks chunks =
     filter (\<lambda>chunk. chunk \<noteq> [] \<and> chunk \<noteq> str ''[DONE]'') (map strings_TrimSpace chunks)"

section \<open>Retention of log details (package model)\<close>

text \<open>
  The log store \<^verbatim>\<open>LOG_DB\<close> holds the table of log details, swept by the retention
  cleaner, and the table of log records, of which only the presence matters here. A
  table is the list of its rows in storage order. Of a \<^verbatim>\<open>LogDetail\<close> row the cleaner
  reads the column \<^verbatim>\<open>created_at\<close> (Unix seconds).
\<close>

record LogDetail =
  log_id :: int
  created_at :: int

record 'l log_db =
  log_details :: "LogDetail list"
  logs :: "'l list"

text \<open>
  What the cleaner does to the outside: the DELETE statements as the store receives them
  (the cutoff bound to \<^verbatim>\<open>created_at < ?\<close>, whether the statement carries
  \<^verbatim>\<open>ORDER BY created_at ASC\<close>, its \<^verbatim>\<open>LIMIT\<close> if it carries one, and the rows affected,
  \<open>None\<close> when the statement failed), its sleeps (milliseconds) and its log lines.
\<close>

datatype effect =
  SqlDelete int bool "nat option" "int option"
| Sleep nat
| LogError string
| LogInfo int int

record 'l world =
  LOG_DB :: "'l log_db"
  effects :: "effect list"

subsection \<open>The clock\<close>

text \<open>
  A \<^verbatim>\<open>time.Location\<close> is read through its \<^verbatim>\<open>lookup\<close>: for an instant (Unix seconds) the
  offset from UTC in force and the bounds \<open>start \<le> instant < stop\<close> of the period over
  which that offset holds. \<^verbatim>\<open>time.UTC\<close> has offset 0 at all times.
\<close>

record Location =
  lookup :: "int \<Rightarrow> int \<times> int \<times> int"

definition time_UTC :: Location where
  "time_UTC = \<lparr>lookup = (\<lambda>sec. (0, - (2 ^ 63), 2 ^ 63 - 1))\<rparr>"

text \<open>
  \<^verbatim>\<open>t.abs()\<close>, from which \<^verbatim>\<open>t.Date()\<close> and \<^verbatim>\<open>t.Clock()\<close> read the calendar day and the
  time of day: the seconds shown by the wall clock of the location.
\<close>

definition wall_clock :: "Location \<Rightarrow> int \<Rightarrow> int" where
  "wall_clock loc sec = sec + fst (lookup loc sec)"

text \<open>
  \<^verbatim>\<open>time.Date(year, month, day, hour, min, sec, nsec, loc).Unix()\<close>, given the wall-clock
  seconds that the fields denote: the offset is looked up as if the wall-clock reading
  were UTC, and looked up again at the instant so found when that instant falls outside
  the period of the first answer.
\<close>

definition time_Date :: "Location \<Rightarrow> int \<Rightarrow> int" where
  "time_Date loc unix =
     (case lookup loc unix of
        (offset, start, stop) \<Rightarrow>
          if offset \<noteq> 0 then
            (let utc = unix - offset;
                 offset' = (if utc < start \<or> utc \<ge> stop then fst (lookup loc utc) else offset)
             in unix - offset')
          else unix)"

text \<open>
  \<^verbatim>\<open>t.AddDate(0, 0, days).Unix()\<close>: \<^verbatim>\<open>Date\<close> is called with the fields of \<open>t\<close> and \<open>days\<close>
  added to the day of the month; normalising the day moves the wall-clock reading by whole
  days of 86400 seconds.
\<close>

definition AddDate_days :: "Location \<Rightarrow> int \<Rightarrow> int \<Rightarrow> int" where
  "AddDate_days loc t days = time_Date loc (wall_clock loc t + days * 86400)"

text \<open>\<^verbatim>\<open>time.Now().AddDate(0, 0, -days).Unix()\<close>, the clock being in location \<open>loc\<close>.\<close>

definition cutoff_of :: "Location \<Rightarrow> int \<Rightarrow> int \<Rightarrow> int" where
  "cutoff_of loc now days = AddDate_days loc now (- days)"

subsection \<open>The store\<close>

text \<open>
  The log store is reached through GORM with one of three drivers (the repository
  supports SQLite, MySQL and PostgreSQL alike). A driver fixes the clauses from which a
  DELETE statement is built: the MySQL driver builds it from DELETE, FROM, WHERE, ORDER BY
  and LIMIT, the others from DELETE, FROM and WHERE, so that an \<^verbatim>\<open>Order\<close> or a
  \<^verbatim>\<open>Limit\<close> set on the query does not reach their statement.
\<close>

datatype Dialector = MySQL | PostgreSQL | SQLite

definition DeleteClauses :: "Dialector \<Rightarrow> string list" where
  "DeleteClauses d =
     (case d of
        MySQL \<Rightarrow> [''DELETE'', ''FROM'', ''WHERE'', ''ORDER BY'', ''LIMIT'']
      | PostgreSQL \<Rightarrow> [''DELETE'', ''FROM'', ''WHERE'']
      | SQLite \<Rightarrow> [''DELETE'', ''FROM'', ''WHERE''])"

text \<open>
  What the cleaner reads from outside: the setting \<^verbatim>\<open>common.DetailedLogRetentionDays\<close>,
  the clock (\<^verbatim>\<open>time.Now()\<close> in Unix seconds, and \<^verbatim>\<open>time.Local\<close>), the driver of the log
  store, the error (if any) with which the store answers the n-th DELETE statement of a
  sweep, and \<^verbatim>\<open>ctx.Err()\<close> at the n-th turn of the loop.
\<close>

record env =
  DetailedLogRetentionDays :: int
  time_Now :: int
  time_Local :: Location
  db_Dialector :: Dialector
  db_error :: "nat \<Rightarrow> string option"
  ctx_Err :: "nat \<Rightarrow> string option"

definition logDetailCleanupBatchSize :: nat where
  "logDetailCleanupBatchSize = 5000"

subsection \<open>The store's answer to the DELETE statement\<close>

text \<open>
  \<^verbatim>\<open>LOG_DB.Where("created_at < ?", cutoff).Order("created_at ASC").Limit(n).Delete(&LogDetail{})\<close>.
  The statement keeps the ORDER BY and the LIMIT of the query when the driver builds a
  DELETE from them. The store removes the rows that match, oldest first when the
  statement is ordered (in storage order otherwise), cut to the statement's limit if it
  has one. A failing statement removes nothing.
\<close>

record gorm_result =
  Error :: "string option"
  RowsAffected :: int

definition batch_victims :: "bool \<Rightarrow> int \<Rightarrow> nat option \<Rightarrow> LogDetail list \<Rightarrow> LogDetail list" where
  "batch_victims ordered cutoff limit rows =
     (let matching = (if ordered then sort_key created_at else id)
                       (filter (\<lambda>r. created_at r < cutoff) rows)
      in case limit of Some l \<Rightarrow> take l matching | None \<Rightarrow> matching)"

definition sql_ordered :: "env \<Rightarrow> bool \<Rightarrow> bool" where
  "sql_ordered E ordered = (ordered \<and> ''ORDER BY'' \<in> set (DeleteClauses (db_Dialector E)))"

definition sql_limit :: "env \<Rightarrow> nat \<Rightarrow> nat option" where
  "sql_limit E limit = (if ''LIMIT'' \<in> set (DeleteClauses (db_Dialector E)) then Some limit else None)"

definition gorm_delete ::
  "env \<Rightarrow> nat \<Rightarrow> bool \<Rightarrow> int \<Rightarrow> nat \<Rightarrow> 'l world \<Rightarrow> gorm_result \<times> 'l world" where
  "gorm_delete E i ordered cutoff limit w =
     (case db_error E i of
        Some e \<Rightarrow>
          (\<lparr>Error = Some e, RowsAffected = 0\<rparr>,
           w\<lparr>effects := effects w
                @ [SqlDelete cutoff (sql_ordered E ordered) (sql_limit E limit) None]\<rparr>)
      | None \<Rightarrow>
          (let victims = batch_victims (sql_ordered E ordered) cutoff (sql_limit E limit)
                           (log_details (LOG_DB w)) in
           (\<lparr>Error = None, RowsAffected = int (length victims)\<rparr>,
            w\<lparr>LOG_DB := (LOG_DB w)\<lparr>log_details :=
                   fold remove1 victims (log_details (LOG_DB w))\<rparr>,
              effects := effects w
                @ [SqlDelete cutoff (sql_ordered E ordered) (sql_limit E limit)
                     (Some (int (length victims)))]\<rparr>)))"

text \<open>The number of rows a sweep with this cutoff still has to delete.\<close>

definition expired_count :: "int \<Rightarrow> 'l world \<Rightarrow> nat" where
  "expired_count cutoff w = length (filter (\<lambda>r. created_at r < cutoff) (log_details (LOG_DB w)))"

lemma mset_fold_remove1: "mset (fold remove1 vs xs) = mset xs - mset vs"
  by (induction vs arbitrary: xs) simp_all

lemma batch_victims_sub:
  "mset (batch_victims ordered cutoff limit rows) \<subseteq># {#r \<in># mset rows. created_at r < cutoff#}"
proof -
  let ?m = "(if ordered then sort_key created_at else id) (filter (\<lambda>r. created_at r < cutoff) rows)"
  have m: "mset ?m = {#r \<in># mset rows. created_at r < cutoff#}" by simp
  show ?thesis
  proof (cases limit)
    case None
    then show ?thesis using m by (simp add: batch_victims_def)
  next
    case (Some l)
    have "mset (take l ?m) + mset (drop l ?m) = mset ?m"
      by (metis append_take_drop_id mset_append)
    then have "mset (take l ?m) \<subseteq># {#r \<in># mset rows. created_at r < cutoff#}"
      using m by (metis mset_subset_eq_add_left)
    then show ?thesis using Some by (simp add: batch_victims_def Let_def)
  qed
qed

lemma filter_expired_victims:
  "filter_mset (\<lambda>r. created_at r < cutoff) (mset (batch_victims ordered cutoff limit rows))
   = mset (batch_victims ordered cutoff limit rows)"
proof -
  have "\<forall>r \<in># mset (batch_victims ordered cutoff limit rows). created_at r < cutoff"
    using batch_victims_sub[of ordered cutoff limit rows]
    by (metis (mono_tags, lifting) filter_mset_eq_conv mset_subset_eqD)
  then show ?thesis by (simp add: filter_mset_eq_conv)
qed

lemma expired_after_delete:
  "length (filter (\<lambda>r. created_at r < cutoff)
      (fold remove1 (batch_victims ordered cutoff limit rows) rows))
   = length (filter (\<lambda>r. created_at r < cutoff) rows)
     - length (batch_victims ordered cutoff limit rows)"
proof -
  let ?P = "\<lambda>r. created_at r < cutoff"
  let ?V = "batch_victims ordered cutoff limit rows"
  have sub: "mset ?V \<subseteq># mset (filter ?P rows)"
    using batch_victims_sub[of ordered cutoff limit rows] by simp
  have "mset (filter ?P (fold remove1 ?V rows)) = mset (filter ?P rows) - mset ?V"
    by (simp add: mset_fold_remove1 filter_expired_victims)
  then have "size (mset (filter ?P (fold remove1 ?V rows)))
      = size (mset (filter ?P rows)) - size (mset ?V)"
    using sub by (simp only: size_Diff_submset)
  then show ?thesis by (simp only: size_mset)
qed

lemma batch_victims_length:
  "length (batch_victims ordered cutoff limit rows)
   \<le> length (filter (\<lambda>r. created_at r < cutoff) rows)"
proof -
  have "mset (batch_victims ordered cutoff limit rows)
      \<subseteq># mset (filter (\<lambda>r. created_at r < cutoff) rows)"
    using batch_victims_sub[of ordered cutoff limit rows] by simp
  then have "size (mset (batch_victims ordered cutoff limit rows))
      \<le> size (mset (filter (\<lambda>r. created_at r < cutoff) rows))"
    by (rule size_mset_mono)
  then show ?thesis by (simp only: size_mset)
qed

lemma gorm_delete_progress:
  assumes "Error (fst (gorm_delete E i ordered cutoff limit w)) = None"
    and "0 < RowsAffected (fst (gorm_delete E i ordered cutoff limit w))"
  shows "expired_count cutoff (snd (gorm_delete E i ordered cutoff limit w))
       < expired_count cutoff w"
proof (cases "db_error E i")
  case (Some e)
  then show ?thesis using assms by (simp add: gorm_delete_def)
next
  case None
  let ?V = "batch_victims (sql_ordered E ordered) cutoff (sql_limit E limit) (log_details (LOG_DB w))"
  let ?F = "filter (\<lambda>r. created_at r < cutoff) (log_details (LOG_DB w))"
  have pos: "0 < length ?V" using assms(2) None by (simp add: gorm_delete_def Let_def)
  have "length ?V \<le> length ?F" by (rule batch_victims_length)
  with pos have "length ?F - length ?V < length ?F" by linarith
  then show ?thesis using None
    by (simp add: gorm_delete_def Let_def expired_count_def expired_after_delete)
qed

subsection \<open>The sweep of \<^verbatim>\<open>model/log_retention.go\<close>\<close>

function pruneLoop :: "env \<Rightarrow> int \<Rightarrow> nat \<Rightarrow> int \<Rightarrow> 'l world \<Rightarrow> int \<times> 'l world" where
  "pruneLoop E cutoff i totalDeleted w =
     (let r = gorm_delete E i False cutoff logDetailCleanupBatchSize w;
          result = fst r;
          w1 = snd r
      in case Error result of
           Some e \<Rightarrow>
             (totalDeleted,
              w1\<lparr>effects := effects w1 @ [LogError (''failed to prune log detail records: '' @ e)]\<rparr>)
         | None \<Rightarrow>
             if RowsAffected result = 0 then (totalDeleted, w1)
             else if RowsAffected result < int logDetailCleanupBatchSize
               then (totalDeleted + RowsAffected result, w1)
             else pruneLoop E cutoff (i + 1) (totalDeleted + RowsAffected result) w1)"
  by pat_completeness auto
termination
proof (relation "measure (\<lambda>(E, cutoff, i, totalDeleted, w). expired_count cutoff w)")
  show "wf (measure (\<lambda>(E, cutoff, i, totalDeleted, w). expired_count cutoff w))" by simp
next
  fix E :: env and cutoff :: int and i :: nat and totalDeleted :: int and w :: "'l world"
    and r result w1
  assume "r = gorm_delete E i False cutoff logDetailCleanupBatchSize w"
    and "result = fst r" and "w1 = snd r" and "Error result = None"
    and "RowsAffected result \<noteq> 0"
    and "\<not> RowsAffected result < int logDetailCleanupBatchSize"
  then show "((E, cutoff, i + 1, totalDeleted + RowsAffected result, w1),
              (E, cutoff, i, totalDeleted, w))
      \<in> measure (\<lambda>(E, cutoff, i, totalDeleted, w). expired_count cutoff w)"
    using gorm_delete_progress[of E i False cutoff logDetailCleanupBatchSize w]
    by (simp add: logDetailCleanupBatchSize_def)
qed

declare pruneLoop.simps [simp del]

definition pruneExpiredLogDetails :: "env \<Rightarrow> 'l world \<Rightarrow> 'l world" where
  "pruneExpiredLogDetails E w =
     (let days = DetailedLogRetentionDays E in
      if days \<le> 0 then w
      else (let cutoff = cutoff_of (time_Local E) (time_Now E) days;
                out = pruneLoop E cutoff 0 0 w;
                totalDeleted = fst out;
                w1 = snd out
            in if totalDeleted > 0 then w1\<lparr>effects := effects w1 @ [LogInfo totalDeleted days]\<rparr>
               else w1))"

subsection \<open>The sweep with ordered batches, pauses and cancellation\<close>

function pruneLoop_paced :: "env \<Rightarrow> int \<Rightarrow> nat \<Rightarrow> int \<Rightarrow> 'l world \<Rightarrow> int \<times> 'l world" where
  "pruneLoop_paced E cutoff i totalDeleted w =
     (case ctx_Err E i of
        Some e \<Rightarrow>
          (totalDeleted, w\<lparr>effects := effects w @ [LogError (''log detail cleanup cancelled: '' @ e)]\<rparr>)
      | None \<Rightarrow>
     (let r = gorm_delete E i True cutoff logDetailCleanupBatchSize w;
          result = fst r;
          w1 = snd r
      in case Error result of
           Some e \<Rightarrow>
             (totalDeleted,
              w1\<lparr>effects := effects w1 @ [LogError (''failed to prune log detail records: '' @ e)]\<rparr>)
         | None \<Rightarrow>
             if RowsAffected result = 0 then (totalDeleted, w1)
             else if RowsAffected result < int logDetailCleanupBatchSize
               then (totalDeleted + RowsAffected result, w1)
             else pruneLoop_paced E cutoff (i + 1) (totalDeleted + RowsAffected result)
                    (w1\<lparr>effects := effects w1 @ [Sleep 100]\<rparr>)))"
  by pat_completeness auto
termination
proof (relation "measure (\<lambda>(E, cutoff, i, totalDeleted, w). expired_count cutoff w)")
  show "wf (measure (\<lambda>(E, cutoff, i, totalDeleted, w). expired_count cutoff w))" by simp
next
  fix E :: env and cutoff :: int and i :: nat and totalDeleted :: int and w :: "'l world"
    and r result w1
  assume "r = gorm_delete E i True cutoff logDetailCleanupBatchSize w"
    and "result = fst r" and "w1 = snd r" and "Error result = None"
    and "RowsAffected result \<noteq> 0"
    and "\<not> RowsAffected result < int logDetailCleanupBatchSize"
  then show "((E, cutoff, i + 1, totalDeleted + RowsAffected result,
               w1\<lparr>effects := effects w1 @ [Sleep 100]\<rparr>),
              (E, cutoff, i, totalDeleted, w))
      \<in> measure (\<lambda>(E, cutoff, i, totalDeleted, w). expired_count cutoff w)"
    using gorm_delete_progress[of E i True cutoff logDetailCleanupBatchSize w]
    by (simp add: logDetailCleanupBatchSize_def expired_count_def)
qed

declare pruneLoop_paced.simps [simp del]

definition pruneExpiredLogDetails_paced :: "env \<Rightarrow> 'l world \<Rightarrow> 'l world" where
  "pruneExpiredLogDetails_paced E w =
     (let days = DetailedLogRetentionDays E in
      if days \<le> 0 then w
      else (let cutoff = cutoff_of (time_Local E) (time_Now E) days;
                out = pruneLoop_paced E cutoff 0 0 w;
                totalDeleted = fst out;
                w1 = snd out
            in if totalDeleted > 0 then w1\<lparr>effects := effects w1 @ [LogInfo totalDeleted days]\<rparr>
               else w1))"

text \<open>
  An environment in which the clock is in UTC, the log store is a MySQL database,
  every DELETE statement succeeds and the context is never cancelled.
\<close>

definition quiet_env :: "int \<Rightarrow> int \<Rightarrow> env" where
  "quiet_env days now =
     \<lparr>DetailedLogRetentionDays = days, time_Now = now,
      time_Local = time_UTC, db_Dialector = MySQL,
      db_error = (\<lambda>i. None), ctx_Err = (\<lambda>i. None)\<rparr>"



text \<open>
  A location with one change of offset: US Eastern time around the end of daylight saving
  time on 1 November 2026 (06:00 UTC), four hours behind UTC before it and five after.
\<close>

definition eastern_2026 :: Location where
  "eastern_2026 = \<lparr>lookup = (\<lambda>sec.
     if sec < 1793512800 then (- 14400, 1772953200, 1793512800)
     else (- 18000, 1793512800, 1805007600))\<rparr>"



section \<open>Stream aggregation in the usage-log viewer (UsageLogDetailDrawer.jsx)\<close>

text \<open>
  The viewer receives the stream objects as parsed JSON. They are modelled with the
  shape of the wire formats: a property that may be missing (or null) is an \<open>option\<close>,
  a JavaScript string is the list of its code units, and values the aggregators only
  pass on (tool inputs, block contents) are JSON values. A condition \<^verbatim>\<open>if (x)\<close> on an
  optional string holds when the string is present and not empty.
\<close>

type_synonym jsstring = "nat list"

datatype json =
  JNull
| JBool bool
| JNum int
| JStr jsstring
| JArr "json list"
| JObj "(jsstring \<times> json) list"

definition truthy :: "jsstring option \<Rightarrow> bool" where
  "truthy v = (case v of None \<Rightarrow> False | Some s \<Rightarrow> s \<noteq> [])"

text \<open>\<^verbatim>\<open>x || ''\<close> on an optional string.\<close>

definition or_empty :: "jsstring option \<Rightarrow> jsstring" where
  "or_empty v = (case v of None \<Rightarrow> [] | Some s \<Rightarrow> s)"

subsection \<open>Helpers of the viewer\<close>

text \<open>
  \<^verbatim>\<open>safeParseJson\<close>: null for an empty input and when \<^verbatim>\<open>JSON.parse\<close> throws. The parser
  of the JavaScript runtime is a parameter (\<open>None\<close>: it throws).
\<close>

definition safeParseJson :: "(jsstring \<Rightarrow> json option) \<Rightarrow> jsstring \<Rightarrow> json" where
  "safeParseJson JSON_parse raw =
     (if raw = [] then JNull
      else case JSON_parse raw of Some parsed \<Rightarrow> parsed | None \<Rightarrow> JNull)"

definition is_hex :: "nat \<Rightarrow> bool" where
  "is_hex c = (48 \<le> c \<and> c \<le> 57 \<or> 65 \<le> c \<and> c \<le> 70 \<or> 97 \<le> c \<and> c \<le> 102)"

definition hex_val :: "nat \<Rightarrow> nat" where
  "hex_val c = (if c \<le> 57 then c - 48 else if c \<le> 70 then c - 55 else c - 87)"

text \<open>The pattern \<^verbatim>\<open>/(\\u[0-9a-fA-F]{4})|(\\n)|(\\r)|(\\t)/\<close> matches somewhere.\<close>

fun has_escape :: "jsstring \<Rightarrow> bool" where
  "has_escape [] = False"
| "has_escape (x # xs) =
     ((x = 92 \<and>
        (case xs of
           [] \<Rightarrow> False
         | c # rest \<Rightarrow>
             c = 110 \<or> c = 114 \<or> c = 116
             \<or> (c = 117 \<and> 4 \<le> length rest \<and> list_all is_hex (take 4 rest))))
      \<or> has_escape xs)"

text \<open>Replacing every \<^verbatim>\<open>\uXXXX\<close> by the code unit it names, left to right.\<close>

fun replace_unicode :: "jsstring \<Rightarrow> jsstring" where
  "replace_unicode (a # b # h1 # h2 # h3 # h4 # rest) =
     (if a = 92 \<and> b = 117 \<and> is_hex h1 \<and> is_hex h2 \<and> is_hex h3 \<and> is_hex h4
      then (hex_val h1 * 4096 + hex_val h2 * 256 + hex_val h3 * 16 + hex_val h4)
             # replace_unicode rest
      else a # replace_unicode (b # h1 # h2 # h3 # h4 # rest))"
| "replace_unicode (x # xs) = x # replace_unicode xs"
| "replace_unicode [] = []"

text \<open>Replacing every backslash followed by the letter \<open>c\<close> by the character \<open>r\<close>.\<close>

fun replace_escape :: "nat \<Rightarrow> nat \<Rightarrow> jsstring \<Rightarrow> jsstring" where
  "replace_escape c r (a # b # rest) =
     (if a = 92 \<and> b = c then r # replace_escape c r rest
      else a # replace_escape c r (b # rest))"
| "replace_escape c r xs = xs"

definition decodeUnicodeEscapes :: "jsstring \<Rightarrow> jsstring" where
  "decodeUnicodeEscapes raw =
     (if \<not> has_escape raw then raw
      else (let output = replace_unicode raw;
                output = replace_escape 110 10 output;
                output = replace_escape 114 13 output;
                output = replace_escape 116 9 output
            in output))"

text \<open>\<^verbatim>\<open>normaliseContent\<close> on an optional string (its array and object branches are not reached).\<close>

definition normaliseContent :: "jsstring option \<Rightarrow> jsstring" where
  "normaliseContent content =
     (if \<not> truthy content then [] else decodeUnicodeEscapes (or_empty content))"

text \<open>\<^verbatim>\<open>String.prototype.trim\<close>: white space and line terminators of ECMAScript.\<close>

definition js_isSpace :: "nat \<Rightarrow> bool" where
  "js_isSpace c =
     (9 \<le> c \<and> c \<le> 13 \<or> c = 32 \<or> c = 160 \<or> c = 5760 \<or> 8192 \<le> c \<and> c \<le> 8202
      \<or> c = 8232 \<or> c = 8233 \<or> c = 8239 \<or> c = 8287 \<or> c = 12288 \<or> c = 65279)"

definition js_trim :: "jsstring \<Rightarrow> jsstring" where
  "js_trim s = rev (dropWhile js_isSpace (rev (dropWhile js_isSpace s)))"

text \<open>\<^verbatim>\<open>ensureArray\<close> on an optional array.\<close>

definition ensureArray :: "'a list option \<Rightarrow> 'a list" where
  "ensureArray v = (case v of Some xs \<Rightarrow> xs | None \<Rightarrow> [])"

text \<open>
  A JavaScript array with holes: reading a hole or past the end gives undefined, writing
  past the end extends the array with holes.
\<close>

type_synonym 'a js_array = "'a option list"

definition array_get :: "'a js_array \<Rightarrow> nat \<Rightarrow> 'a option" where
  "array_get xs i = (if i < length xs then xs ! i else None)"

definition array_set :: "'a js_array \<Rightarrow> nat \<Rightarrow> 'a \<Rightarrow> 'a js_array" where
  "array_set xs i v =
     (if i < length xs then xs[i := Some v]
      else xs @ replicate (i - length xs) None @ [Some v])"

subsection \<open>OpenAI chat.completion.chunk objects\<close>

record function_delta =
  fd_name :: "jsstring option"
  fd_arguments :: "jsstring option"

record tool_call_delta =
  td_index :: "nat option"
  td_id :: "jsstring option"
  td_type :: "jsstring option"
  td_function :: "function_delta option"

record chat_delta =
  delta_role :: "jsstring option"
  delta_content :: "jsstring option"
  delta_reasoning_content :: "jsstring option"
  delta_tool_calls :: "tool_call_delta list option"

record chat_choice =
  choice_delta :: "chat_delta option"

text \<open>
  A stream object: its \<^verbatim>\<open>choices\<close>, its \<^verbatim>\<open>usage\<close> and, for the objects of the
  Responses API, \<^verbatim>\<open>response.usage\<close>. The usage object itself is only passed on.
\<close>

record 'u stream_object =
  so_choices :: "chat_choice list option"
  so_usage :: "'u option"
  so_response_usage :: "'u option"

record tool_call =
  call_id :: "jsstring option"
  call_type :: "jsstring option"
  call_function_name :: jsstring
  call_function_arguments :: jsstring

record chat_message =
  msg_role :: jsstring
  msg_content :: "jsstring option"
  msg_reasoning :: "jsstring option"
  msg_tool_calls :: "tool_call js_array option"

record chunk_state =
  st_role :: jsstring
  st_reasoningBuffer :: jsstring
  st_fullContent :: jsstring
  st_toolCalls :: "tool_call js_array"

text \<open>The body of \<^verbatim>\<open>delta.tool_calls.forEach((toolDelta, index) => ...)\<close>.\<close>

definition mergeToolDelta :: "tool_call js_array \<Rightarrow> tool_call_delta \<Rightarrow> nat \<Rightarrow> tool_call js_array" where
  "mergeToolDelta toolCalls toolDelta index =
     (let targetIndex = (case td_index toolDelta of Some i \<Rightarrow> i | None \<Rightarrow> index);
          fname = (case td_function toolDelta of Some f \<Rightarrow> fd_name f | None \<Rightarrow> None);
          fargs = (case td_function toolDelta of Some f \<Rightarrow> fd_arguments f | None \<Rightarrow> None);
          existing = (case array_get toolCalls targetIndex of
                        Some e \<Rightarrow> e
                      | None \<Rightarrow> \<lparr>call_id = td_id toolDelta, call_type = td_type toolDelta,
                                 call_function_name = or_empty fname,
                                 call_function_arguments = []\<rparr>);
          existing = (if truthy (td_id toolDelta)
                      then existing\<lparr>call_id := td_id toolDelta\<rparr> else existing);
          existing = (if truthy (td_type toolDelta)
                      then existing\<lparr>call_type := td_type toolDelta\<rparr> else existing);
          existing = (if truthy fname
                      then existing\<lparr>call_function_name := or_empty fname\<rparr> else existing);
          existing = (if truthy fargs
                      then existing\<lparr>call_function_arguments :=
                             call_function_arguments existing @ or_empty fargs\<rparr>
                      else existing)
      in array_set toolCalls targetIndex existing)"

text \<open>The body of \<^verbatim>\<open>streamObjects.forEach((chunk) => ...)\<close>.\<close>

definition processChunk :: "chunk_state \<Rightarrow> 'u stream_object \<Rightarrow> chunk_state" where
  "processChunk st chunk =
     (let choices = ensureArray (so_choices chunk) in
      case choices of
        [] \<Rightarrow> st
      | choice # _ \<Rightarrow>
          (case choice_delta choice of
             None \<Rightarrow> st
           | Some delta \<Rightarrow>
               (let st = (if truthy (delta_role delta)
                          then st\<lparr>st_role := or_empty (delta_role delta)\<rparr> else st);
                    st = (case delta_content delta of
                            Some c \<Rightarrow> st\<lparr>st_fullContent := st_fullContent st @ c\<rparr>
                          | None \<Rightarrow> st);
                    st = (if truthy (delta_reasoning_content delta)
                          then st\<lparr>st_reasoningBuffer := st_reasoningBuffer st
                                 @ normaliseContent (delta_reasoning_content delta)\<rparr>
                          else st);
                    st = (case delta_tool_calls delta of
                            Some tds \<Rightarrow>
                              st\<lparr>st_toolCalls :=
                                   foldl (\<lambda>toolCalls (toolDelta, index).
                                            mergeToolDelta toolCalls toolDelta index)
                                     (st_toolCalls st) (zip tds [0..<length tds])\<rparr>
                          | None \<Rightarrow> st)
                in st)))"

definition aggregateOpenAIStreamChunks :: "'u stream_object list \<Rightarrow> chat_message option" where
  "aggregateOpenAIStreamChunks streamObjects =
     (if length streamObjects = 0 then None
      else (let st = foldl processChunk
                       \<lparr>st_role = str ''assistant'', st_reasoningBuffer = [],
                        st_fullContent = [], st_toolCalls = []\<rparr> streamObjects
            in Some \<lparr>msg_role = st_role st,
                     msg_content = (if st_fullContent st \<noteq> [] then Some (st_fullContent st)
                                    else None),
                     msg_reasoning = (if js_trim (st_reasoningBuffer st) \<noteq> []
                                      then Some (st_reasoningBuffer st) else None),
                     msg_tool_calls = (if length (st_toolCalls st) > 0
                                       then Some (st_toolCalls st) else None)\<rparr>))"

text \<open>
  \<^verbatim>\<open>collectResponseUsage\<close>; its first argument is \<^verbatim>\<open>responseObject?.usage\<close>, which the
  viewer passes as null whenever there are stream objects.
\<close>

definition collectResponseUsage :: "'u option \<Rightarrow> 'u stream_object list \<Rightarrow> 'u option" where
  "collectResponseUsage responseUsage streamObjects =
     (case responseUsage of
        Some u \<Rightarrow> Some u
      | None \<Rightarrow>
          (case find (\<lambda>obj. so_usage obj \<noteq> None \<or> so_response_usage obj \<noteq> None)
                     (rev streamObjects) of
             None \<Rightarrow> None
           | Some withUsage \<Rightarrow>
               (case so_usage withUsage of
                  Some u \<Rightarrow> Some u
                | None \<Rightarrow> so_response_usage withUsage)))"

subsection \<open>What the specification says of an aggregated chat stream\<close>

text \<open>The deltas the aggregator looks at: \<^verbatim>\<open>choices[0].delta\<close> of each chunk that has one.\<close>

definition chunk_delta :: "'u stream_object \<Rightarrow> chat_delta option" where
  "chunk_delta chunk =
     (case ensureArray (so_choices chunk) of [] \<Rightarrow> None | choice # _ \<Rightarrow> choice_delta choice)"

definition stream_deltas :: "'u stream_object list \<Rightarrow> chat_delta list" where
  "stream_deltas chunks = List.map_filter chunk_delta chunks"

text \<open>The content: every defined, non-null content fragment, concatenated in list order.\<close>

definition spec_content :: "chat_delta list \<Rightarrow> jsstring" where
  "spec_content ds = concat (map (\<lambda>d. or_empty (delta_content d)) ds)"

text \<open>The last value that is present among the given ones, else the default.\<close>

definition last_present :: "jsstring option list \<Rightarrow> jsstring option \<Rightarrow> jsstring option" where
  "last_present vs dflt = last (dflt # filter truthy vs)"

text \<open>The role: that of the last delta that carries one, \<^verbatim>\<open>assistant\<close> when none does.\<close>

definition spec_role :: "chat_delta list \<Rightarrow> jsstring" where
  "spec_role ds = or_empty (last_present (map delta_role ds) (Some (str ''assistant'')))"

text \<open>
  The tool-call deltas of the stream in arrival order, each with the index it is keyed
  by: its own \<^verbatim>\<open>index\<close>, or else its position within its delta.
\<close>

definition keyed_tool_deltas :: "chat_delta \<Rightarrow> (nat \<times> tool_call_delta) list" where
  "keyed_tool_deltas d =
     map (\<lambda>(toolDelta, position).
            (case td_index toolDelta of Some i \<Rightarrow> i | None \<Rightarrow> position, toolDelta))
       (zip (ensureArray (delta_tool_calls d)) [0..<length (ensureArray (delta_tool_calls d))])"

definition td_name :: "tool_call_delta \<Rightarrow> jsstring option" where
  "td_name toolDelta = (case td_function toolDelta of Some f \<Rightarrow> fd_name f | None \<Rightarrow> None)"

definition td_arguments :: "tool_call_delta \<Rightarrow> jsstring option" where
  "td_arguments toolDelta = (case td_function toolDelta of Some f \<Rightarrow> fd_arguments f | None \<Rightarrow> None)"

text \<open>
  The tool call accumulated from the deltas keyed by one index: id, type and name are
  those of the last delta that has them (the first delta's id and type, and the empty
  name, when none has), the arguments are the fragments concatenated in arrival order.
  An index no delta is keyed by stays a hole.
\<close>

definition spec_tool_call :: "tool_call_delta list \<Rightarrow> tool_call option" where
  "spec_tool_call tds =
     (if tds = [] then None
      else Some \<lparr>call_id = last_present (map td_id tds) (td_id (hd tds)),
                 call_type = last_present (map td_type tds) (td_type (hd tds)),
                 call_function_name = or_empty (last_present (map td_name tds) None),
                 call_function_arguments = concat (map (\<lambda>t. or_empty (td_arguments t)) tds)\<rparr>)"

definition spec_tool_calls :: "(nat \<times> tool_call_delta) list \<Rightarrow> tool_call js_array" where
  "spec_tool_calls ktds =
     map (\<lambda>i. spec_tool_call (map snd (filter (\<lambda>kt. fst kt = i) ktds)))
       [0..<Max (set (0 # map (\<lambda>kt. Suc (fst kt)) ktds))]"

text \<open>The usage: that of the last stream object that carries one.\<close>

definition spec_usage :: "'u stream_object list \<Rightarrow> 'u option" where
  "spec_usage chunks =
     last (None # filter (\<lambda>u. u \<noteq> None) (map so_usage chunks))"

text \<open>
  The entry stored by \<open>mergeToolDelta\<close>, as a function of the entry found at the target
  index, and the effect of one chunk as a function of its delta.
\<close>

definition merged_call :: "tool_call option \<Rightarrow> tool_call_delta \<Rightarrow> tool_call" where
  "merged_call found toolDelta =
     (let existing = (case found of
                        Some e \<Rightarrow> e
                      | None \<Rightarrow> \<lparr>call_id = td_id toolDelta, call_type = td_type toolDelta,
                                 call_function_name = or_empty (td_name toolDelta),
                                 call_function_arguments = []\<rparr>);
          existing = (if truthy (td_id toolDelta)
                      then existing\<lparr>call_id := td_id toolDelta\<rparr> else existing);
          existing = (if truthy (td_type toolDelta)
                      then existing\<lparr>call_type := td_type toolDelta\<rparr> else existing);
          existing = (if truthy (td_name toolDelta)
                      then existing\<lparr>call_function_name := or_empty (td_name toolDelta)\<rparr>
                      else existing);
          existing = (if truthy (td_arguments toolDelta)
                      then existing\<lparr>call_function_arguments :=
                             call_function_arguments existing @ or_empty (td_arguments toolDelta)\<rparr>
                      else existing)
      in existing)"

definition store_call :: "tool_call js_array \<Rightarrow> nat \<times> tool_call_delta \<Rightarrow> tool_call js_array" where
  "store_call toolCalls kt =
     array_set toolCalls (fst kt) (merged_call (array_get toolCalls (fst kt)) (snd kt))"

definition processDelta :: "chunk_state \<Rightarrow> chat_delta \<Rightarrow> chunk_state" where
  "processDelta st d =
     \<lparr>st_role = (if truthy (delta_role d) then or_empty (delta_role d) else st_role st),
      st_reasoningBuffer = st_reasoningBuffer st @ normaliseContent (delta_reasoning_content d),
      st_fullContent = st_fullContent st @ or_empty (delta_content d),
      st_toolCalls = foldl store_call (st_toolCalls st) (keyed_tool_deltas d)\<rparr>"

text \<open>Stream objects of a plain text stream (scenario S2): a content delta, a final usage.\<close>

definition content_chunk :: "jsstring \<Rightarrow> 'u stream_object" where
  "content_chunk c =
     \<lparr>so_choices = Some [\<lparr>choice_delta = Some \<lparr>delta_role = None, delta_content = Some c,
         delta_reasoning_content = None, delta_tool_calls = None\<rparr>\<rparr>],
      so_usage = None, so_response_usage = None\<rparr>"

definition tool_chunk :: "tool_call_delta list \<Rightarrow> 'u stream_object" where
  "tool_chunk tds =
     \<lparr>so_choices = Some [\<lparr>choice_delta = Some \<lparr>delta_role = None, delta_content = None,
         delta_reasoning_content = None, delta_tool_calls = Some tds\<rparr>\<rparr>],
      so_usage = None, so_response_usage = None\<rparr>"

definition usage_chunk :: "'u \<Rightarrow> 'u stream_object" where
  "usage_chunk u = \<lparr>so_choices = Some [], so_usage = Some u, so_response_usage = None\<rparr>"

subsection \<open>Anthropic message-stream events\<close>

text \<open>
  An event with the properties the aggregator reads: \<^verbatim>\<open>type\<close>, \<^verbatim>\<open>index\<close>,
  \<^verbatim>\<open>message.role\<close>, \<^verbatim>\<open>content_block\<close> and \<^verbatim>\<open>delta\<close>.
\<close>

record content_block =
  cb_type :: "jsstring option"
  cb_text :: "jsstring option"
  cb_name :: "jsstring option"
  cb_id :: "jsstring option"
  cb_input :: "json option"
  cb_content :: "json option"
  cb_thinking :: "jsstring option"

record event_delta =
  ed_type :: "jsstring option"
  ed_text :: "jsstring option"
  ed_thinking :: "jsstring option"
  ed_partial_json :: "jsstring option"
  ed_partialJson :: "jsstring option"
  ed_arguments :: "jsstring option"
  ed_role :: "jsstring option"
  ed_reasoning :: "jsstring option"

record claude_event =
  ev_type :: "jsstring option"
  ev_index :: "nat option"
  ev_message_role :: "jsstring option"
  ev_content_block :: "content_block option"
  ev_delta :: "event_delta option"

text \<open>The block objects held in the aggregator's \<^verbatim>\<open>Map\<close>.\<close>

record block =
  b_type :: jsstring
  b_text :: jsstring
  b_name :: "jsstring option"
  b_id :: "jsstring option"
  b_input :: "json option"
  b_partialJson :: jsstring
  b_content :: "json option"
  b_reasoning :: jsstring

text \<open>
  The \<^verbatim>\<open>Map\<close> keeps its entries in insertion order with one entry per key: an
  association list, read with \<open>map_of\<close> and written with \<open>AList.update\<close>.
\<close>

record claude_state =
  cs_blocks :: "(nat \<times> block) list"
  cs_role :: jsstring
  cs_reasoning :: jsstring

definition newBlock :: block where
  "newBlock =
     \<lparr>b_type = str ''text'', b_text = [], b_name = None, b_id = None, b_input = None,
      b_partialJson = [], b_content = None, b_reasoning = []\<rparr>"

text \<open>\<^verbatim>\<open>getBlock(index)\<close>: the block at the index, a new one when there is none yet.\<close>

definition getBlock :: "(nat \<times> block) list \<Rightarrow> nat \<Rightarrow> block" where
  "getBlock blocks index = (case map_of blocks index of Some b \<Rightarrow> b | None \<Rightarrow> newBlock)"

text \<open>\<^verbatim>\<open>getBlock(index)\<close> followed by assignments to the block it returns.\<close>

definition withBlock :: "claude_state \<Rightarrow> nat \<Rightarrow> (block \<Rightarrow> block) \<Rightarrow> claude_state" where
  "withBlock st index f =
     st\<lparr>cs_blocks := AList.update index (f (getBlock (cs_blocks st) index)) (cs_blocks st)\<rparr>"

definition seedBlock :: "content_block option \<Rightarrow> block \<Rightarrow> block" where
  "seedBlock cb block =
     block\<lparr>b_type := (if truthy (Option.bind cb cb_type) then or_empty (Option.bind cb cb_type)
                      else b_type block),
           b_text := or_empty (Option.bind cb cb_text),
           b_name := Option.bind cb cb_name,
           b_id := Option.bind cb cb_id,
           b_input := Option.bind cb cb_input,
           b_content := Option.bind cb cb_content,
           b_reasoning := or_empty (Option.bind cb cb_thinking)\<rparr>"

definition applyDelta :: "event_delta option \<Rightarrow> block \<Rightarrow> block" where
  "applyDelta d block =
     (let dtype = Option.bind d ed_type in
      if dtype = Some (str ''text_delta'') then
        block\<lparr>b_type := (if b_type block \<noteq> [] then b_type block else str ''text''),
              b_text := b_text block @ or_empty (Option.bind d ed_text)\<rparr>
      else if dtype = Some (str ''thinking_delta'') then
        block\<lparr>b_reasoning := b_reasoning block @ or_empty (Option.bind d ed_thinking)\<rparr>
      else if dtype = Some (str ''input_json_delta'') then
        block\<lparr>b_partialJson := b_partialJson block
                @ (case Option.bind d ed_partial_json of
                     Some s \<Rightarrow> s
                   | None \<Rightarrow> or_empty (Option.bind d ed_partialJson))\<rparr>
      else if dtype = Some (str ''tool_use_delta'') then
        block\<lparr>b_partialJson := b_partialJson block @ or_empty (Option.bind d ed_arguments)\<rparr>
      else if truthy (Option.bind d ed_text) then
        block\<lparr>b_text := b_text block @ or_empty (Option.bind d ed_text)\<rparr>
      else block)"

definition stopBlock :: "(jsstring \<Rightarrow> json option) \<Rightarrow> block \<Rightarrow> block" where
  "stopBlock JSON_parse block =
     (if b_partialJson block \<noteq> [] then
        (let parsed = safeParseJson JSON_parse (b_partialJson block)
         in block\<lparr>b_input := Some (if parsed = JNull then JStr (b_partialJson block) else parsed)\<rparr>)
      else block)"

text \<open>The body of \<^verbatim>\<open>events.forEach((event) => ...)\<close>.\<close>

definition processEvent :: "(jsstring \<Rightarrow> json option) \<Rightarrow> claude_state \<Rightarrow> claude_event \<Rightarrow> claude_state" where
  "processEvent JSON_parse st event =
     (let type = ev_type event in
      if type = Some (str ''message_start'') then
        st\<lparr>cs_role := (if truthy (ev_message_role event) then or_empty (ev_message_role event)
                        else cs_role st)\<rparr>
      else if type = Some (str ''content_block_start'') then
        (let index = (case ev_index event of Some i \<Rightarrow> i | None \<Rightarrow> length (cs_blocks st))
         in withBlock st index (seedBlock (ev_content_block event)))
      else if type = Some (str ''content_block_delta'') then
        (let index = (case ev_index event of Some i \<Rightarrow> i | None \<Rightarrow> 0)
         in withBlock st index (applyDelta (ev_delta event)))
      else if type = Some (str ''content_block_stop'') then
        (let index = (case ev_index event of Some i \<Rightarrow> i | None \<Rightarrow> 0)
         in withBlock st index (stopBlock JSON_parse))
      else if type = Some (str ''message_delta'') then
        (let st = (if truthy (Option.bind (ev_delta event) ed_role)
                   then st\<lparr>cs_role := or_empty (Option.bind (ev_delta event) ed_role)\<rparr> else st);
             st = (if truthy (Option.bind (ev_delta event) ed_reasoning)
                   then st\<lparr>cs_reasoning := cs_reasoning st
                          @ normaliseContent (Option.bind (ev_delta event) ed_reasoning)\<rparr>
                   else st)
         in st)
      else if type = Some (str ''message_stop'') then
        (if truthy (ev_message_role event)
         then st\<lparr>cs_role := or_empty (ev_message_role event)\<rparr> else st)
      else st)"

text \<open>The entries of the final message's content.\<close>

datatype content_item =
  TextItem jsstring
| ToolUseItem "jsstring option" "jsstring option" "json option"
| ToolResultItem "jsstring option" "jsstring option" json
| OtherItem jsstring json

text \<open>\<^verbatim>\<open>block.content ?? block.text ?? block.input\<close>; the text of a block is never null.\<close>

definition blockContent :: "block \<Rightarrow> json" where
  "blockContent block =
     (case b_content block of
        Some v \<Rightarrow> if v = JNull then JStr (b_text block) else v
      | None \<Rightarrow> JStr (b_text block))"

definition renderBlock :: "block \<Rightarrow> content_item" where
  "renderBlock block =
     (if b_type block = str ''text'' \<or> b_type block = [] then TextItem (b_text block)
      else if b_type block = str ''tool_use'' then
        ToolUseItem (b_id block) (b_name block)
          (case b_input block of
             Some v \<Rightarrow> Some v
           | None \<Rightarrow> if b_partialJson block \<noteq> [] \<and> js_trim (b_partialJson block) \<noteq> []
                      then Some (JStr (b_partialJson block)) else None)
      else if b_type block = str ''tool_result'' then
        ToolResultItem (b_id block) (b_name block) (blockContent block)
      else OtherItem (b_type block) (blockContent block))"

record claude_message =
  cm_role :: jsstring
  cm_content :: "content_item list option"
  cm_reasoning :: "jsstring option"

definition listedBlocks :: "(nat \<times> block) list \<Rightarrow> (nat \<times> block) list" where
  "listedBlocks blocks =
     filter (\<lambda>entry. b_type (snd entry) \<noteq> str ''reasoning'') (sort_key fst blocks)"

definition aggregateClaudeStreamEvents ::
  "(jsstring \<Rightarrow> json option) \<Rightarrow> claude_event list \<Rightarrow> claude_message option" where
  "aggregateClaudeStreamEvents JSON_parse events =
     (if length events = 0 then None
      else (let st = foldl (processEvent JSON_parse)
                       \<lparr>cs_blocks = [], cs_role = str ''assistant'', cs_reasoning = []\<rparr> events;
                sortedBlocks = listedBlocks (cs_blocks st);
                content = map (\<lambda>entry. renderBlock (snd entry)) sortedBlocks;
                reasoning = cs_reasoning st @ concat (map (\<lambda>entry. b_reasoning (snd entry)) sortedBlocks)
            in Some \<lparr>cm_role = cs_role st,
                     cm_content = (if length content > 0 then Some content else None),
                     cm_reasoning = (if js_trim reasoning \<noteq> [] then Some reasoning else None)\<rparr>))"

text \<open>Events of a stream, for the examples: a parser that rejects its input, and the events.\<close>

definition failing_parse :: "jsstring \<Rightarrow> json option" where
  "failing_parse raw = None"

definition start_event :: "nat \<Rightarrow> content_block \<Rightarrow> claude_event" where
  "start_event i cb =
     \<lparr>ev_type = Some (str ''content_block_start''), ev_index = Some i, ev_message_role = None,
      ev_content_block = Some cb, ev_delta = None\<rparr>"

definition text_delta_event :: "nat \<Rightarrow> jsstring \<Rightarrow> claude_event" where
  "text_delta_event i t =
     \<lparr>ev_type = Some (str ''content_block_delta''), ev_index = Some i, ev_message_role = None,
      ev_content_block = None,
      ev_delta = Some \<lparr>ed_type = Some (str ''text_delta''), ed_text = Some t, ed_thinking = None,
        ed_partial_json = None, ed_partialJson = None, ed_arguments = None, ed_role = None,
        ed_reasoning = None\<rparr>\<rparr>"

definition stop_event :: "nat \<Rightarrow> claude_event" where
  "stop_event i =
     \<lparr>ev_type = Some (str ''content_block_stop''), ev_index = Some i, ev_message_role = None,
      ev_content_block = None, ev_delta = None\<rparr>"

definition block_of_type :: "jsstring \<Rightarrow> content_block" where
  "block_of_type t =
     \<lparr>cb_type = Some t, cb_text = None, cb_name = None, cb_id = None, cb_input = None,
      cb_content = None, cb_thinking = None\<rparr>"

text \<open>The aggregator's state after a list of events.\<close>

definition claudeState :: "(jsstring \<Rightarrow> json option) \<Rightarrow> claude_event list \<Rightarrow> claude_state" where
  "claudeState JSON_parse events =
     foldl (processEvent JSON_parse)
       \<lparr>cs_blocks = [], cs_role = str ''assistant'', cs_reasoning = []\<rparr> events"

section \<open>Upstream transport: header hygiene, header overrides, URL composition\<close>

text \<open>
  The functions of this section (\<^verbatim>\<open>buildPassThroughHeaderDenySet\<close>, \<^verbatim>\<open>copyHeadersExcept\<close>,
  \<^verbatim>\<open>processHeaderOverride\<close>, \<^verbatim>\<open>GetFullRequestURL\<close>) are exercised by the test files of
  the repository, while their bodies are not among the sources at hand. They are
  modelled from the specification, with the tests as the reference for their shape.
\<close>

subsection \<open>Strings and header maps of the standard library\<close>

definition ToLower :: "gostring \<Rightarrow> gostring" where
  "ToLower s = map (\<lambda>r. if 65 \<le> r \<and> r \<le> 90 then r + 32 else r) s"

definition HasPrefix :: "gostring \<Rightarrow> gostring \<Rightarrow> bool" where
  "HasPrefix s p = (take (length p) s = p)"

definition HasSuffix :: "gostring \<Rightarrow> gostring \<Rightarrow> bool" where
  "HasSuffix s p = (length p \<le> length s \<and> drop (length s - length p) s = p)"

definition TrimPrefix :: "gostring \<Rightarrow> gostring \<Rightarrow> gostring" where
  "TrimPrefix s p = (if HasPrefix s p then drop (length p) s else s)"

definition TrimSuffix :: "gostring \<Rightarrow> gostring \<Rightarrow> gostring" where
  "TrimSuffix s p = (if HasSuffix s p then take (length s - length p) s else s)"

text \<open>\<^verbatim>\<open>strings.Split(s, sep)\<close> for a separator of one character.\<close>

fun Split :: "rune \<Rightarrow> gostring \<Rightarrow> gostring list" where
  "Split sep [] = [[]]"
| "Split sep (c # cs) =
     (if c = sep then [] # Split sep cs
      else (case Split sep cs of t # ts \<Rightarrow> (c # t) # ts | [] \<Rightarrow> [[c]]))"

text \<open>
  \<^verbatim>\<open>http.CanonicalHeaderKey\<close> on a header name: the first letter and every letter after a
  hyphen in upper case, the others in lower case.
\<close>

fun canonical :: "bool \<Rightarrow> gostring \<Rightarrow> gostring" where
  "canonical up [] = []"
| "canonical up (c # cs) =
     (if up then (if 97 \<le> c \<and> c \<le> 122 then c - 32 else c)
      else (if 65 \<le> c \<and> c \<le> 90 then c + 32 else c)) # canonical (c = 45) cs"

definition CanonicalHeaderKey :: "gostring \<Rightarrow> gostring" where
  "CanonicalHeaderKey k = canonical True k"

text \<open>An \<^verbatim>\<open>http.Header\<close>: canonical header names to their values in order.\<close>

type_synonym Header = "gostring \<Rightarrow> gostring list option"

definition Header_Values :: "Header \<Rightarrow> gostring \<Rightarrow> gostring list" where
  "Header_Values h k = (case h (CanonicalHeaderKey k) of Some vs \<Rightarrow> vs | None \<Rightarrow> [])"

definition Header_Get :: "Header \<Rightarrow> gostring \<Rightarrow> gostring" where
  "Header_Get h k = (case Header_Values h k of v # _ \<Rightarrow> v | [] \<Rightarrow> [])"

definition Header_Set :: "Header \<Rightarrow> gostring \<Rightarrow> gostring \<Rightarrow> Header" where
  "Header_Set h k v = h(CanonicalHeaderKey k \<mapsto> [v])"

definition Header_Add :: "Header \<Rightarrow> gostring \<Rightarrow> gostring \<Rightarrow> Header" where
  "Header_Add h k v = h(CanonicalHeaderKey k \<mapsto> Header_Values h k @ [v])"

subsection \<open>Pass-through header hygiene\<close>

text \<open>
  Modelled from the spec: the list of always-denied names is part of the missing body of
  \<^verbatim>\<open>buildPassThroughHeaderDenySet\<close>. The
  specification (section 4.2) has the transport strip \<^verbatim>\<open>Authorization\<close>, \<^verbatim>\<open>Cookie\<close>,
  \<^verbatim>\<open>api-key\<close>, \<^verbatim>\<open>x-api-key\<close>, the hop-by-hop headers \<^verbatim>\<open>Connection\<close>, \<^verbatim>\<open>Keep-Alive\<close>,
  \<^verbatim>\<open>Proxy-Authenticate\<close>, \<^verbatim>\<open>Proxy-Authorization\<close>, \<^verbatim>\<open>Te\<close>, \<^verbatim>\<open>Trailer\<close>,
  \<^verbatim>\<open>Transfer-Encoding\<close>, \<^verbatim>\<open>Upgrade\<close>, plus \<^verbatim>\<open>Proxy-Connection\<close>, \<^verbatim>\<open>Host\<close>,
  \<^verbatim>\<open>Content-Length\<close>, and every header name listed in the inbound \<^verbatim>\<open>Connection\<close> token
  list. The tests give the shape: a set of lower-case names, built from the inbound
  header and a list of further names to deny.
\<close>

definition passThroughDenyHeaders :: "gostring list" where
  "passThroughDenyHeaders =
     map str [''authorization'', ''cookie'', ''api-key'', ''x-api-key'', ''connection'',
       ''keep-alive'', ''proxy-authenticate'', ''proxy-authorization'', ''te'', ''trailer'',
       ''transfer-encoding'', ''upgrade'', ''proxy-connection'', ''host'', ''content-length'']"

text \<open>
  Modelled from the spec: the reading of the inbound \<^verbatim>\<open>Connection\<close> token list is part of
  the missing body of \<^verbatim>\<open>buildPassThroughHeaderDenySet\<close>. The tokens of every
  \<^verbatim>\<open>Connection\<close> value, separated by commas, with surrounding whitespace removed, in
  lower case (the test expects \<^verbatim>\<open>" X-Hop , Foo "\<close> to deny \<^verbatim>\<open>x-hop\<close> and \<^verbatim>\<open>foo\<close>).
\<close>

definition connectionTokens :: "Header \<Rightarrow> gostring list" where
  "connectionTokens src =
     filter (\<lambda>t. t \<noteq> [])
       (map (\<lambda>t. ToLower (strings_TrimSpace t))
          (concat (map (Split 44) (Header_Values src (str ''Connection'')))))"

text \<open>
  Modelled from the spec: the body of \<^verbatim>\<open>buildPassThroughHeaderDenySet\<close> is missing. The
  deny set holds the names above, the \<^verbatim>\<open>Connection\<close> tokens and the further names handed
  in, all in lower case.
\<close>

definition buildPassThroughHeaderDenySet :: "Header \<Rightarrow> gostring list \<Rightarrow> gostring set" where
  "buildPassThroughHeaderDenySet src extra =
     set passThroughDenyHeaders \<union> set (connectionTokens src)
     \<union> set (filter (\<lambda>t. t \<noteq> []) (map (\<lambda>t. ToLower (strings_TrimSpace t)) extra))"

text \<open>
  Modelled from the spec: the body of \<^verbatim>\<open>copyHeadersExcept\<close> is missing. Every header
  of the source whose lower-case name is not denied is added to the destination with all
  its values in order (the test expects \<^verbatim>\<open>X-Multi\<close> to arrive as \<^verbatim>\<open>[a b]\<close>).
\<close>

definition copyHeadersExcept :: "Header \<Rightarrow> Header \<Rightarrow> gostring set \<Rightarrow> Header" where
  "copyHeadersExcept dst src deny =
     (\<lambda>k. case src k of
             None \<Rightarrow> dst k
           | Some vs \<Rightarrow>
               if ToLower k \<in> deny \<or> vs = [] then dst k
               else Some ((case dst k of Some ws \<Rightarrow> ws | None \<Rightarrow> []) @ vs))"

text \<open>
  The inbound header of \<^verbatim>\<open>TestCopyHeadersExcept_FiltersAuthHopByHopAndConnectionTokens\<close>
  (the quotation marks inside the \<^verbatim>\<open>Proxy-Authenticate\<close> value left out).
\<close>

definition test_inbound_header :: Header where
  "test_inbound_header =
     Header_Set (Header_Add (foldl (\<lambda>h kv. Header_Set h (str (fst kv)) (str (snd kv)))
       (Header_Add (Header_Add (Header_Set Map.empty (str ''X-Trace-Id'') (str ''abc''))
          (str ''X-Multi'') (str ''a'')) (str ''X-Multi'') (str ''b''))
       [(''Authorization'', ''Bearer user''), (''api-key'', ''user-key''),
        (''x-api-key'', ''user-x-key''), (''Cookie'', ''session=abc''),
        (''Upgrade'', ''websocket''), (''Transfer-Encoding'', ''chunked''),
        (''Host'', ''example.com''), (''Content-Length'', ''123''),
        (''Keep-Alive'', ''timeout=5''), (''Proxy-Authenticate'', ''Basic realm=proxy''),
        (''Proxy-Authorization'', ''Basic abc''), (''Te'', ''trailers''), (''Trailer'', ''Foo''),
        (''Proxy-Connection'', ''keep-alive'')])
       (str ''Connection'') (str ''X-Hop, keep-alive'')) (str ''X-Hop'') (str ''1'')"

subsection \<open>Header override templates\<close>

text \<open>
  Modelled from the spec: the recognition of a client-header placeholder is part of the
  missing body of \<^verbatim>\<open>processHeaderOverride\<close>. The
  specification (section 4.2) resolves header override templates such as
  \<^verbatim>\<open>{client_header:X-Trace-Id}\<close> from the inbound request, except during synthetic
  channel-test requests, where client-header placeholders resolve to empty; the tests
  expect an entry that resolves to empty to be left out of the computed header map, and
  a pass-through rule (\<^verbatim>\<open>*\<close>) to contribute nothing during a channel test. An override
  is a list of header names with their template strings; any other template stands for
  itself.
\<close>

definition clientHeaderPlaceholder :: "gostring \<Rightarrow> gostring option" where
  "clientHeaderPlaceholder template =
     (let t = strings_TrimSpace template in
      if HasPrefix t (str ''{client_header:'') \<and> HasSuffix t (str ''}'') 
         \<and> length (str ''{client_header:}'') \<le> length t
      then Some (strings_TrimSpace
                   (take (length t - length (str ''{client_header:}''))
                      (drop (length (str ''{client_header:'')) t)))
      else None)"

text \<open>
  Modelled from the spec: the resolution of one template is part of the missing body of
  \<^verbatim>\<open>processHeaderOverride\<close>. A client-header placeholder resolves to the inbound
  request's value of that header, and to empty during a channel test; any other template
  stands for itself.
\<close>

definition resolveTemplate :: "bool \<Rightarrow> Header \<Rightarrow> gostring \<Rightarrow> gostring" where
  "resolveTemplate isChannelTest request template =
     (case clientHeaderPlaceholder template of
        Some h \<Rightarrow> if isChannelTest then [] else Header_Get request h
      | None \<Rightarrow> template)"

text \<open>
  Modelled from the spec: \<^verbatim>\<open>RelayInfo\<close> is declared outside the sources at hand; of it
  the tests set \<^verbatim>\<open>IsChannelTest\<close> and \<^verbatim>\<open>ChannelMeta.HeadersOverride\<close>.
\<close>

record RelayInfo =
  IsChannelTest :: bool
  HeadersOverride :: "(gostring \<times> gostring) list"

text \<open>
  Modelled from the spec: the body of \<^verbatim>\<open>processHeaderOverride\<close> is missing. Every
  override entry other than the pass-through rule \<^verbatim>\<open>*\<close> sets its header to the resolved
  template, unless that is empty.
\<close>

definition processHeaderOverride :: "RelayInfo \<Rightarrow> Header \<Rightarrow> gostring \<Rightarrow> gostring option" where
  "processHeaderOverride info request =
     foldl (\<lambda>headers entry.
              if fst entry = str ''*'' then headers
              else (let v = resolveTemplate (IsChannelTest info) request (snd entry) in
                    if v = [] then headers else headers(fst entry \<mapsto> v)))
       Map.empty (HeadersOverride info)"

subsection \<open>URL composition\<close>

text \<open>
  The specification (section 4.2) on \<^verbatim>\<open>GetFullRequestURL\<close>: for the OpenAI family only, a base URL with no path
  component (or only \<^verbatim>\<open>/\<close>) gets the request URL with its \<^verbatim>\<open>/v1/...\<close> appended, a base
  URL with any non-root path gets the request URL without its leading \<^verbatim>\<open>/v1\<close>; the
  Cloudflare AI gateway shape is recognised first; other channels never strip \<^verbatim>\<open>/v1\<close>.
  The test fixes the details: a trailing slash of an OpenAI base URL is dropped before
  appending, and for the Cloudflare gateway an OpenAI request loses its leading \<^verbatim>\<open>/v1\<close>.
\<close>

text \<open>
  Modelled from the spec: the channel types are constants of package \<^verbatim>\<open>constant\<close>, which
  is missing; the test names the OpenAI and the OpenRouter type.
\<close>

datatype ChannelType = ChannelTypeOpenAI | ChannelTypeOpenRouter | ChannelTypeOther nat

text \<open>
  Modelled from the spec: how \<^verbatim>\<open>GetFullRequestURL\<close> finds the path component of a base
  URL is part of its missing body. The path component is taken as the generic URL syntax
  has it: a URL is a scheme (a non-empty run of characters other than \<^verbatim>\<open>:\<close>, \<^verbatim>\<open>/\<close>, \<^verbatim>\<open>?\<close>
  and \<^verbatim>\<open>#\<close>, closed by a colon), an authority (opened by \<^verbatim>\<open>//\<close>, running up to the next
  \<^verbatim>\<open>/\<close>, \<^verbatim>\<open>?\<close> or \<^verbatim>\<open>#\<close>), a path (up to the next \<^verbatim>\<open>?\<close> or \<^verbatim>\<open>#\<close>), a query and a
  fragment, each of which may be missing.
\<close>

definition url_delim :: "rune \<Rightarrow> bool" where
  "url_delim r = (r = 47 \<or> r = 63 \<or> r = 35)"

text \<open>
  Modelled from the spec: the path component of the base URL, for the missing body of
  \<^verbatim>\<open>GetFullRequestURL\<close>.
\<close>

definition url_path :: "gostring \<Rightarrow> gostring" where
  "url_path baseURL =
     (let name = takeWhile (\<lambda>r. r \<noteq> 58 \<and> \<not> url_delim r) baseURL;
          after_name = dropWhile (\<lambda>r. r \<noteq> 58 \<and> \<not> url_delim r) baseURL;
          hier = (if name \<noteq> [] \<and> HasPrefix after_name (str '':'')
                  then drop 1 after_name else baseURL);
          after_authority = (if HasPrefix hier (str ''//'')
                             then dropWhile (\<lambda>r. \<not> url_delim r) (drop 2 hier) else hier)
      in takeWhile (\<lambda>r. r \<noteq> 63 \<and> r \<noteq> 35) after_authority)"

text \<open>
  Modelled from the spec: the body of \<^verbatim>\<open>GetFullRequestURL\<close> is missing. The Cloudflare
  gateway first, then the OpenAI rule on the base URL's path, then plain concatenation.
\<close>

definition GetFullRequestURL :: "gostring \<Rightarrow> gostring \<Rightarrow> ChannelType \<Rightarrow> gostring" where
  "GetFullRequestURL baseURL requestURL channelType =
     (if HasPrefix baseURL (str ''https://gateway.ai.cloudflare.com'') then
        (if channelType = ChannelTypeOpenAI
         then baseURL @ TrimPrefix requestURL (str ''/v1'')
         else baseURL @ requestURL)
      else if channelType = ChannelTypeOpenAI then
        (if url_path baseURL = [] \<or> url_path baseURL = str ''/''
         then TrimSuffix baseURL (str ''/'') @ requestURL
         else TrimSuffix baseURL (str ''/'') @ TrimPrefix requestURL (str ''/v1''))
      else baseURL @ requestURL)"

section \<open>Properties of payload capture\<close>

subsection \<open>Auxiliary facts\<close>

lemma digits_nonempty: "digits n \<noteq> []"
  by (subst digits.simps) simp


lemma sublist_mark_suffix: "strings_Contains (p @ truncatedSuffix n) (str ''[truncated'')"
proof -
  have "truncatedSuffix n = [8230, 32] @ str ''[truncated'' @ (32 # digits (nat (if n < 0 then 0 else n)) @ str '' chars]'')"
    by (simp add: truncatedSuffix_def truncatedSuffixFmt_def str_def Let_def)
  then have "p @ truncatedSuffix n = (p @ [8230, 32]) @ str ''[truncated'' @ (32 # digits (nat (if n < 0 then 0 else n)) @ str '' chars]'')"
    by simp
  then show ?thesis unfolding strings_Contains_def by (metis sublist_appendI)
qed




lemma fullKey_neq: "fullPayloadKeyFor key = Some fk \<Longrightarrow> fk \<noteq> key"
  by (cases key) auto

lemma GetString_upd_same: "GetString (c(key \<mapsto> StringValue v)) key = v"
  by (simp add: GetString_def)

lemma GetString_upd_other: "k \<noteq> key \<Longrightarrow> GetString (c(k \<mapsto> v)) key = GetString c key"
  by (simp add: GetString_def)

lemma appendFull_GetString:
  "GetString (appendFullPayloadSegment c key segment) key = GetString c key"
proof (cases "fullPayloadKeyFor key")
  case None
  then show ?thesis by (simp add: appendFullPayloadSegment_def)
next
  case (Some fk)
  then have "fk \<noteq> key" by (rule fullKey_neq)
  then show ?thesis using Some
    by (simp add: appendFullPayloadSegment_def GetString_upd_other split: option.splits ctx_value.splits)
qed


lemma appendFull_segments:
  "fullPayloadKeyFor key = Some fk \<Longrightarrow> segment \<noteq> [] \<Longrightarrow>
   fullSegments (appendFullPayloadSegment c key segment) fk = fullSegments c fk @ [segment]"
  by (simp add: appendFullPayloadSegment_def fullSegments_def split: option.splits ctx_value.splits)

lemma fullSegments_upd_other: "k \<noteq> fk \<Longrightarrow> fullSegments (c(k \<mapsto> v)) fk = fullSegments c fk"
  by (simp add: fullSegments_def)

lemma Append_skip:
  "strings_TrimSpace chunk0 = [] \<or> strings_TrimSpace chunk0 = str ''[DONE]'' \<Longrightarrow>
   AppendPayloadChunkForLog c key chunk0 = c"
  by (auto simp add: AppendPayloadChunkForLog_def Let_def)

lemma Append_preview:
  assumes "strings_TrimSpace chunk0 = chunk" and "chunk \<noteq> []" and "chunk \<noteq> str ''[DONE]''"
    and "GetString c key = old"
  shows "GetString (AppendPayloadChunkForLog c key chunk0) key =
    (if old = [] then applyLogLimit chunk
     else if strings_Contains old (str ''[truncated'') then old
     else if length old + length chunk \<le> maxLogPayloadRunes then old @ chunk
     else if maxLogPayloadRunes \<le> length old
       then take maxLogPayloadRunes old @ truncatedSuffix (int (length chunk))
     else old @ take (maxLogPayloadRunes - length old) chunk
            @ truncatedSuffix (int (length old + length chunk) - int maxLogPayloadRunes))"
  using assms
  by (auto simp add: AppendPayloadChunkForLog_def Let_def appendFull_GetString GetString_upd_same
      nat_diff_distrib' simp del: fun_upd_apply)

lemma Append_segments:
  assumes "strings_TrimSpace chunk0 = chunk" and "chunk \<noteq> []" and "chunk \<noteq> str ''[DONE]''"
    and "fullPayloadKeyFor key = Some fk"
  shows "fullSegments (AppendPayloadChunkForLog c key chunk0) fk = fullSegments c fk @ [chunk]"
proof -
  have ne: "key \<noteq> fk" using assms(4) fullKey_neq by blast
  show ?thesis using assms(1-3)
    by (simp add: AppendPayloadChunkForLog_def Let_def appendFull_segments[OF assms(4)]
        fullSegments_upd_other[OF ne] del: fun_upd_apply)
qed














lemma TrimSpace_id:
  "s \<noteq> [] \<Longrightarrow> \<not> unicode_IsSpace (hd s) \<Longrightarrow> \<not> unicode_IsSpace (last s) \<Longrightarrow> strings_TrimSpace s = s"
proof -
  assume a: "s \<noteq> []" "\<not> unicode_IsSpace (hd s)" "\<not> unicode_IsSpace (last s)"
  have 1: "dropWhile unicode_IsSpace s = s" using a(1,2) by (cases s) auto
  have 2: "dropWhile unicode_IsSpace (rev s) = rev s" using a(1,3) by (cases "rev s") (auto simp: last_rev hd_rev)
  show ?thesis by (simp add: strings_TrimSpace_def 1 2)
qed


lemma appendFull_slot:
  "fullPayloadKeyFor key = Some fk \<Longrightarrow> seg \<noteq> [] \<Longrightarrow>
   \<exists>s. appendFullPayloadSegment c key seg fk = Some (SegmentsValue s)"
  by (simp add: appendFullPayloadSegment_def split: option.splits ctx_value.splits)

lemma Append_cases:
  "AppendPayloadChunkForLog c key chunk0 = c
   \<or> (strings_TrimSpace chunk0 \<noteq> [] \<and>
       (\<exists>c'. AppendPayloadChunkForLog c key chunk0
           = appendFullPayloadSegment c' key (strings_TrimSpace chunk0)))"
  by (simp add: AppendPayloadChunkForLog_def Let_def) blast

lemma Append_slot_kind:
  assumes "fullPayloadKeyFor key = Some fk"
    and "c fk = None \<or> (\<exists>s. c fk = Some (SegmentsValue s))"
  shows "AppendPayloadChunkForLog c key chunk0 fk = None
     \<or> (\<exists>s. AppendPayloadChunkForLog c key chunk0 fk = Some (SegmentsValue s))"
  using Append_cases[of c key chunk0] assms appendFull_slot[OF assms(1)]
  by metis

lemma Append_segments_all:
  assumes "fullPayloadKeyFor key = Some fk"
  shows "fullSegments (AppendPayloadChunkForLog c key chunk0) fk
       = fullSegments c fk @ keptChunks [chunk0]"
proof (cases "strings_TrimSpace chunk0 = [] \<or> strings_TrimSpace chunk0 = str ''[DONE]''")
  case True
  then show ?thesis by (auto simp: Append_skip keptChunks_def)
next
  case False
  then show ?thesis using Append_segments[OF refl _ _ assms, of chunk0 c]
    by (simp add: keptChunks_def)
qed

lemma keptChunks_Cons: "keptChunks (x # xs) = keptChunks [x] @ keptChunks xs"
  by (simp add: keptChunks_def)

lemma appendChunks_segments:
  assumes "fullPayloadKeyFor key = Some fk"
  shows "fullSegments (appendChunks c key chunks) fk = fullSegments c fk @ keptChunks chunks"
proof (induction chunks arbitrary: c)
  case Nil
  then show ?case by (simp add: appendChunks_def keptChunks_def)
next
  case (Cons x xs)
  have "appendChunks c key (x # xs) = appendChunks (AppendPayloadChunkForLog c key x) key xs"
    by (simp add: appendChunks_def)
  then show ?case
    using Cons[of "AppendPayloadChunkForLog c key x"] Append_segments_all[OF assms]
    by (simp add: keptChunks_Cons[of x xs])
qed

lemma appendChunks_slot_kind:
  assumes "fullPayloadKeyFor key = Some fk"
  shows "c fk = None \<or> (\<exists>s. c fk = Some (SegmentsValue s)) \<Longrightarrow>
     appendChunks c key chunks fk = None
     \<or> (\<exists>s. appendChunks c key chunks fk = Some (SegmentsValue s))"
proof (induction chunks arbitrary: c)
  case Nil
  then show ?case by (simp add: appendChunks_def)
next
  case (Cons x xs)
  have "appendChunks c key (x # xs) = appendChunks (AppendPayloadChunkForLog c key x) key xs"
    by (simp add: appendChunks_def)
  then show ?case
    using Cons.IH[of "AppendPayloadChunkForLog c key x",
        OF Append_slot_kind[of key fk c x, OF assms Cons.prems]] by simp
qed

lemma GetFull_concat:
  "c fk = None \<or> (\<exists>s. c fk = Some (SegmentsValue s)) \<Longrightarrow>
   GetFullPayloadString c fk = concat (fullSegments c fk)"
  by (auto simp: GetFullPayloadString_def fullSegments_def)

lemma setFull_read:
  "fullPayloadKeyFor key = Some fk \<Longrightarrow>
   GetFullPayloadString (setFullPayload c key [v]) fk = v"
  by (simp add: setFullPayload_def GetFullPayloadString_def)

subsection \<open>Streaming chunks\<close>

text \<open>
  Claim C6. For a chunk handed to \<open>AppendPayloadChunkForLog\<close> under a preview key: if the
  chunk, once surrounding whitespace is trimmed, is empty or the sentinel \<^verbatim>\<open>[DONE]\<close>,
  the context (preview and full payload) is unchanged. Every other chunk is appended as one
  segment to the full-payload list. It enters the preview only as far as the preview has
  room under \<open>maxLogPayloadRunes\<close>: whole when it fits, cut to the remaining room with the
  truncation suffix appended when it overflows, and not at all (only the suffix is added)
  when no room is left. Once the preview carries the truncation marker, later chunks
  leave the preview unchanged and still extend the full-payload list.
\<close>
theorem AppendPayloadChunkForLog_chunk_rule:
  fixes c :: gin_Context and key :: ContextKey and chunk0 :: gostring
  defines "old \<equiv> GetString c key"
    and "chunk \<equiv> strings_TrimSpace chunk0"
    and "c' \<equiv> AppendPayloadChunkForLog c key chunk0"
  assumes key: "fullPayloadKeyFor key = Some fullKey"
  shows "(chunk = [] \<or> chunk = str ''[DONE]'' \<longrightarrow> c' = c)
    \<and> (chunk \<noteq> [] \<and> chunk \<noteq> str ''[DONE]'' \<longrightarrow>
         fullSegments c' fullKey = fullSegments c fullKey @ [chunk]
       \<and> (\<not> strings_Contains old (str ''[truncated'')
            \<and> length old + length chunk \<le> maxLogPayloadRunes \<longrightarrow>
          GetString c' key = old @ chunk)
       \<and> (\<not> strings_Contains old (str ''[truncated'')
            \<and> length old < maxLogPayloadRunes
            \<and> maxLogPayloadRunes < length old + length chunk \<longrightarrow>
          GetString c' key = old @ take (maxLogPayloadRunes - length old) chunk
            @ truncatedSuffix (int (length old + length chunk) - int maxLogPayloadRunes))
       \<and> (\<not> strings_Contains old (str ''[truncated'')
            \<and> maxLogPayloadRunes \<le> length old \<longrightarrow>
          GetString c' key = take maxLogPayloadRunes old @ truncatedSuffix (int (length chunk)))
       \<and> (strings_Contains old (str ''[truncated'') \<longrightarrow> GetString c' key = old)
       \<and> (old = p @ truncatedSuffix n \<longrightarrow> GetString c' key = old))"
proof (intro conjI impI)
  assume "chunk = [] \<or> chunk = str ''[DONE]''"
  then show "c' = c" unfolding c'_def chunk_def by (rule Append_skip)
next
  assume ok: "chunk \<noteq> [] \<and> chunk \<noteq> str ''[DONE]''"
  show "fullSegments c' fullKey = fullSegments c fullKey @ [chunk]"
    unfolding c'_def using ok key by (intro Append_segments) (simp_all add: chunk_def)
next
  assume ok: "chunk \<noteq> [] \<and> chunk \<noteq> str ''[DONE]''"
  note pv = Append_preview[of chunk0 chunk c key old, folded c'_def]
  have pv': "GetString c' key =
    (if old = [] then applyLogLimit chunk
     else if strings_Contains old (str ''[truncated'') then old
     else if length old + length chunk \<le> maxLogPayloadRunes then old @ chunk
     else if maxLogPayloadRunes \<le> length old
       then take maxLogPayloadRunes old @ truncatedSuffix (int (length chunk))
     else old @ take (maxLogPayloadRunes - length old) chunk
            @ truncatedSuffix (int (length old + length chunk) - int maxLogPayloadRunes))"
    using ok by (intro pv) (simp_all add: chunk_def old_def)
  {
    assume "\<not> strings_Contains old (str ''[truncated'')
            \<and> length old + length chunk \<le> maxLogPayloadRunes"
    then show "GetString c' key = old @ chunk"
      by (simp add: pv' applyLogLimit_def)
  next
    assume "\<not> strings_Contains old (str ''[truncated'')
            \<and> length old < maxLogPayloadRunes
            \<and> maxLogPayloadRunes < length old + length chunk"
    then show "GetString c' key = old @ take (maxLogPayloadRunes - length old) chunk
            @ truncatedSuffix (int (length old + length chunk) - int maxLogPayloadRunes)"
      by (auto simp add: pv' applyLogLimit_def Let_def)
  next
    assume a: "\<not> strings_Contains old (str ''[truncated'')
            \<and> maxLogPayloadRunes \<le> length old"
    have "\<not> length old + length chunk \<le> maxLogPayloadRunes"
      using a ok by (cases chunk) auto
    moreover have "old \<noteq> []" using a by (auto simp: maxLogPayloadRunes_def)
    ultimately show "GetString c' key = take maxLogPayloadRunes old @ truncatedSuffix (int (length chunk))"
      using a by (simp add: pv')
  next
    assume "strings_Contains old (str ''[truncated'')"
    moreover have "\<not> strings_Contains [] (str ''[truncated'')"
      by (simp add: strings_Contains_def str_def)
    ultimately show "GetString c' key = old"
      by (auto simp add: pv')
  next
    assume "old = p @ truncatedSuffix n"
    then have "strings_Contains old (str ''[truncated'')" by (simp add: sublist_mark_suffix)
    moreover have "\<not> strings_Contains [] (str ''[truncated'')"
      by (simp add: strings_Contains_def str_def)
    ultimately show "GetString c' key = old"
      by (auto simp add: pv')
  }
qed

theorem AppendPayloadChunkForLog_chunk_rule_witness:
  "fullPayloadKeyFor ContextKeyLoggedResponseBody = Some ContextKeyLoggedResponseBodyFull
   \<and> strings_TrimSpace (str '' hi '') = str ''hi''
   \<and> fullSegments (AppendPayloadChunkForLog Map.empty ContextKeyLoggedResponseBody (str '' hi ''))
        ContextKeyLoggedResponseBodyFull = [str ''hi'']
   \<and> GetString (AppendPayloadChunkForLog Map.empty ContextKeyLoggedResponseBody (str '' hi ''))
        ContextKeyLoggedResponseBody = str ''hi''
   \<and> AppendPayloadChunkForLog Map.empty ContextKeyLoggedResponseBody (str '' [DONE] '') = Map.empty"
proof -
  have k: "fullPayloadKeyFor ContextKeyLoggedResponseBody = Some ContextKeyLoggedResponseBodyFull"
    by simp
  have t: "strings_TrimSpace (str '' hi '') = str ''hi''"
    by (simp add: strings_TrimSpace_def str_def unicode_IsSpace_def)
  have d: "strings_TrimSpace (str '' [DONE] '') = str ''[DONE]''"
    by (simp add: strings_TrimSpace_def str_def unicode_IsSpace_def)
  have n: "\<not> strings_Contains [] (str ''[truncated'')"
    by (simp add: strings_Contains_def str_def)
  have ne: "str ''hi'' \<noteq> [] \<and> str ''hi'' \<noteq> str ''[DONE]''"
    by (simp add: str_def)
  have len: "length (str ''hi'') \<le> maxLogPayloadRunes"
    by (simp add: str_def maxLogPayloadRunes_def)
  have g: "GetString Map.empty ContextKeyLoggedResponseBody = []"
    by (simp add: GetString_def)
  have f: "fullSegments Map.empty ContextKeyLoggedResponseBodyFull = []"
    by (simp add: fullSegments_def)
  show ?thesis
    using AppendPayloadChunkForLog_chunk_rule[OF k, of "str '' hi ''" Map.empty]
      AppendPayloadChunkForLog_chunk_rule[OF k, of "str '' [DONE] ''" Map.empty]
    by (simp add: k t d n g f ne len)
qed

subsection \<open>The preview bound\<close>









subsection \<open>The full payload\<close>

text \<open>
  Claim C7 (as amended). Reading the full-payload slot with \<open>GetFullPayloadString\<close> joins
  the stored segments with no separator. After a single buffered non-binary capture it is
  the original payload string. After a streaming sequence it is the concatenation, in
  arrival order, of the event strings with their surrounding whitespace trimmed, leaving
  out those that are empty or the sentinel \<^verbatim>\<open>[DONE]\<close> after trimming (appended to
  whatever segments the slot held before).
\<close>
theorem full_payload_contents:
  assumes key: "fullPayloadKeyFor key = Some fullKey"
  shows "(v \<noteq> [] \<longrightarrow>
           GetFullPayloadString (snd (CapturePayloadStringForLog c key v)) fullKey = v)
    \<and> (data \<noteq> [] \<and> \<not> isBinaryPayload data \<longrightarrow>
           GetFullPayloadString (snd (CapturePayloadForLog c key data)) fullKey
             = runes_of_bytes data)
    \<and> (c fullKey = None \<longrightarrow>
           GetFullPayloadString (appendChunks c key chunks) fullKey
             = concat (keptChunks chunks))
    \<and> (c fullKey = Some (SegmentsValue segs) \<longrightarrow>
           GetFullPayloadString (appendChunks c key chunks) fullKey
             = concat segs @ concat (keptChunks chunks))"
proof (intro conjI impI)
  assume "v \<noteq> []"
  then show "GetFullPayloadString (snd (CapturePayloadStringForLog c key v)) fullKey = v"
    by (simp add: CapturePayloadStringForLog_def Let_def setFull_read[OF key])
next
  assume "data \<noteq> [] \<and> \<not> isBinaryPayload data"
  then show "GetFullPayloadString (snd (CapturePayloadForLog c key data)) fullKey
      = runes_of_bytes data"
    by (simp add: CapturePayloadForLog_def Let_def setFull_read[OF key])
next
  assume a: "c fullKey = None"
  then have "GetFullPayloadString (appendChunks c key chunks) fullKey
      = concat (fullSegments (appendChunks c key chunks) fullKey)"
    using appendChunks_slot_kind[OF key, of c chunks] by (intro GetFull_concat) simp
  moreover have "fullSegments c fullKey = []" using a by (simp add: fullSegments_def)
  ultimately show "GetFullPayloadString (appendChunks c key chunks) fullKey
      = concat (keptChunks chunks)"
    by (simp add: appendChunks_segments[OF key])
next
  assume a: "c fullKey = Some (SegmentsValue segs)"
  then have "GetFullPayloadString (appendChunks c key chunks) fullKey
      = concat (fullSegments (appendChunks c key chunks) fullKey)"
    using appendChunks_slot_kind[OF key, of c chunks] by (intro GetFull_concat) simp
  moreover have "fullSegments c fullKey = segs" using a by (simp add: fullSegments_def)
  ultimately show "GetFullPayloadString (appendChunks c key chunks) fullKey
      = concat segs @ concat (keptChunks chunks)"
    by (simp add: appendChunks_segments[OF key])
qed

lemma keptChunks_example:
  "keptChunks [str '' a'', str ''[DONE]'', str ''b ''] = [str ''a'', str ''b'']"
  by (simp add: keptChunks_def strings_TrimSpace_def str_def unicode_IsSpace_def)

theorem full_payload_contents_witness:
  "fullPayloadKeyFor ContextKeyLoggedResponseBody = Some ContextKeyLoggedResponseBodyFull
   \<and> GetFullPayloadString
        (snd (CapturePayloadStringForLog Map.empty ContextKeyLoggedResponseBody (str '' a '')))
        ContextKeyLoggedResponseBodyFull = str '' a ''
   \<and> GetFullPayloadString
        (appendChunks Map.empty ContextKeyLoggedResponseBody [str '' a'', str ''[DONE]'', str ''b ''])
        ContextKeyLoggedResponseBodyFull = str ''ab''"
proof -
  have k: "fullPayloadKeyFor ContextKeyLoggedResponseBody = Some ContextKeyLoggedResponseBodyFull"
    by simp
  have n: "str '' a '' \<noteq> []" by (simp add: str_def)
  have e: "str ''a'' @ str ''b'' = str ''ab''" by (simp add: str_def)
  show ?thesis
    using full_payload_contents[OF k, where v = "str '' a ''" and c = Map.empty
        and data = "[]" and chunks = "[str '' a'', str ''[DONE]'', str ''b '']"]
    by (simp add: k n e keptChunks_example)
qed

text \<open>
  The claim as stated fails when event strings carry surrounding whitespace: the stored
  payload is the concatenation of the trimmed strings, not of the strings themselves.
\<close>

theorem trimmed_chunks_counterexample:
  "GetFullPayloadString
     (appendChunks Map.empty ContextKeyLoggedResponseBody [str '' a'', str ''b ''])
     ContextKeyLoggedResponseBodyFull = str ''ab''
   \<and> concat [str '' a'', str ''b ''] = str '' ab ''
   \<and> GetFullPayloadString
     (appendChunks Map.empty ContextKeyLoggedResponseBody [str '' a'', str ''b ''])
     ContextKeyLoggedResponseBodyFull \<noteq> concat [str '' a'', str ''b '']"
  by (simp add: appendChunks_def AppendPayloadChunkForLog_def Let_def strings_TrimSpace_def
      unicode_IsSpace_def str_def GetString_def applyLogLimit_def maxLogPayloadRunes_def
      appendFullPayloadSegment_def GetFullPayloadString_def)

section \<open>Properties of the retention sweep\<close>

subsection \<open>One DELETE statement\<close>









lemma expired_count_effects [simp]:
  "expired_count cutoff (w\<lparr>effects := e\<rparr>) = expired_count cutoff w"
  by (simp add: expired_count_def)








lemma sql_MySQL [simp]:
  "db_Dialector E = MySQL \<Longrightarrow> sql_limit E l = Some l"
  "db_Dialector E = MySQL \<Longrightarrow> sql_ordered E b = b"
  by (simp_all add: sql_limit_def sql_ordered_def DeleteClauses_def)

lemma sql_other [simp]:
  "db_Dialector E \<noteq> MySQL \<Longrightarrow> sql_limit E l = None"
  "db_Dialector E \<noteq> MySQL \<Longrightarrow> sql_ordered E b = False"
  by (cases "db_Dialector E"; simp add: sql_limit_def sql_ordered_def DeleteClauses_def)+


subsection \<open>Oldest first\<close>











subsection \<open>Sweeps cut short and sweeps that complete\<close>









subsection \<open>The cutoff\<close>





subsection \<open>What a sweep leaves\<close>














lemma cutoff_across_offset_change:
  "cutoff_of eastern_2026 1793704932 3 = 1793442132
   \<and> 1793704932 - 3 * 86400 = (1793445732 :: int)"
  by (simp add: cutoff_of_def AddDate_days_def wall_clock_def time_Date_def eastern_2026_def)





subsection \<open>The sweep\<close>


subsection \<open>Retention switched off\<close>

text \<open>
  Claim C10. When \<open>DetailedLogRetentionDays\<close> is zero or negative the sweep returns at
  once: no DELETE statement is issued, no log line is written, and the store, with every
  log detail of whatever age, is left as it was.
\<close>
theorem retention_disabled:
  assumes "DetailedLogRetentionDays E \<le> 0"
  shows "pruneExpiredLogDetails E w = w \<and> pruneExpiredLogDetails_paced E w = w"
  using assms by (simp add: pruneExpiredLogDetails_def pruneExpiredLogDetails_paced_def)

theorem retention_disabled_witness:
  "DetailedLogRetentionDays (quiet_env 0 1000000) \<le> 0
   \<and> pruneExpiredLogDetails (quiet_env 0 1000000)
       \<lparr>LOG_DB = \<lparr>log_details = [\<lparr>log_id = 1, created_at = 5\<rparr>], logs = [7::nat]\<rparr>, effects = []\<rparr>
     = \<lparr>LOG_DB = \<lparr>log_details = [\<lparr>log_id = 1, created_at = 5\<rparr>], logs = [7::nat]\<rparr>, effects = []\<rparr>
   \<and> pruneExpiredLogDetails_paced (quiet_env (- 3) 1000000)
       \<lparr>LOG_DB = \<lparr>log_details = [\<lparr>log_id = 1, created_at = 5\<rparr>], logs = [7::nat]\<rparr>, effects = []\<rparr>
     = \<lparr>LOG_DB = \<lparr>log_details = [\<lparr>log_id = 1, created_at = 5\<rparr>], logs = [7::nat]\<rparr>, effects = []\<rparr>"
proof -
  have a: "DetailedLogRetentionDays (quiet_env 0 1000000) \<le> 0" by (simp add: quiet_env_def)
  have b: "DetailedLogRetentionDays (quiet_env (- 3) 1000000) \<le> 0" by (simp add: quiet_env_def)
  show ?thesis
    using retention_disabled[OF a, of "\<lparr>LOG_DB = \<lparr>log_details = [\<lparr>log_id = 1, created_at = 5\<rparr>],
          logs = [7::nat]\<rparr>, effects = []\<rparr>"]
      retention_disabled[OF b, of "\<lparr>LOG_DB = \<lparr>log_details = [\<lparr>log_id = 1, created_at = 5\<rparr>],
          logs = [7::nat]\<rparr>, effects = []\<rparr>"] a
    by simp
qed



section \<open>Properties of stream aggregation\<close>

subsection \<open>OpenAI chat chunks\<close>

lemma length_array_set: "length (array_set xs i v) = max (length xs) (Suc i)"
  by (auto simp: array_set_def)

lemma array_get_set:
  "array_get (array_set xs i v) j = (if j = i then Some v else array_get xs j)"
  by (auto simp: array_set_def array_get_def nth_append nth_list_update)

lemma mergeToolDelta_store:
  "mergeToolDelta toolCalls toolDelta index
   = store_call toolCalls (case td_index toolDelta of Some i \<Rightarrow> i | None \<Rightarrow> index, toolDelta)"
  unfolding mergeToolDelta_def store_call_def merged_call_def td_name_def td_arguments_def
    Let_def
  by (simp split: option.splits)

lemma fold_merge_keyed:
  "foldl (\<lambda>toolCalls (toolDelta, index). mergeToolDelta toolCalls toolDelta index)
     tc (zip tds [0..<length tds])
   = foldl store_call tc
       (map (\<lambda>(toolDelta, position).
            (case td_index toolDelta of Some i \<Rightarrow> i | None \<Rightarrow> position, toolDelta))
         (zip tds [0..<length tds]))"
  by (simp add: foldl_map mergeToolDelta_store case_prod_unfold)

lemma processChunk_delta:
  "processChunk st chunk = (case chunk_delta chunk of None \<Rightarrow> st | Some d \<Rightarrow> processDelta st d)"
proof -
  have r: "\<And>(a::chunk_state) b. a = b \<longleftrightarrow> st_role a = st_role b
      \<and> st_reasoningBuffer a = st_reasoningBuffer b
      \<and> st_fullContent a = st_fullContent b \<and> st_toolCalls a = st_toolCalls b"
    by auto
  show ?thesis
    by (auto simp: processChunk_def chunk_delta_def processDelta_def Let_def r
        fold_merge_keyed keyed_tool_deltas_def ensureArray_def or_empty_def
        normaliseContent_def truthy_def
        split: list.splits option.splits)
qed

lemma fold_chunks_deltas:
  "foldl processChunk st chunks = foldl processDelta st (stream_deltas chunks)"
  by (induction chunks arbitrary: st)
     (simp_all add: stream_deltas_def map_filter_simps processChunk_delta split: option.splits)

lemma last_present_Cons:
  "last_present (v # vs) dflt = last_present vs (if truthy v then v else dflt)"
  by (simp add: last_present_def)

lemma last_present_snoc:
  "last_present (vs @ [v]) dflt = (if truthy v then v else last_present vs dflt)"
  by (simp add: last_present_def)

lemma fold_content:
  "st_fullContent (foldl processDelta st ds) = st_fullContent st @ spec_content ds"
  by (induction ds arbitrary: st) (simp_all add: spec_content_def processDelta_def)

lemma Some_or_empty: "truthy v \<Longrightarrow> Some (or_empty v) = v"
  by (auto simp: truthy_def or_empty_def split: option.splits)

lemma fold_role:
  "st_role (foldl processDelta st ds)
   = or_empty (last_present (map delta_role ds) (Some (st_role st)))"
proof (induction ds arbitrary: st)
  case Nil
  then show ?case by (simp add: last_present_def or_empty_def)
next
  case (Cons d ds)
  show ?case
    by (simp add: Cons last_present_Cons) (simp add: processDelta_def Some_or_empty)
qed

lemma fold_toolCalls:
  "st_toolCalls (foldl processDelta st ds)
   = foldl store_call (st_toolCalls st) (concat (map keyed_tool_deltas ds))"
  by (induction ds arbitrary: st) (simp_all add: processDelta_def)

lemma spec_tool_call_snoc:
  "spec_tool_call (tds @ [d]) = Some (merged_call (spec_tool_call tds) d)"
proof (cases "tds = []")
  case True
  then show ?thesis
    by (simp add: spec_tool_call_def merged_call_def last_present_def or_empty_def Let_def
        truthy_def split: option.splits)
next
  case False
  then show ?thesis
    by (simp add: spec_tool_call_def merged_call_def last_present_snoc Let_def)
       (simp add: truthy_def or_empty_def split: option.splits)
qed

lemma stored_calls:
  "length (foldl store_call [] ktds) = Max (set (0 # map (\<lambda>kt. Suc (fst kt)) ktds))
   \<and> (\<forall>i. array_get (foldl store_call [] ktds) i
          = spec_tool_call (map snd (filter (\<lambda>kt. fst kt = i) ktds)))"
proof (induction ktds rule: rev_induct)
  case Nil
  then show ?case by (simp add: array_get_def spec_tool_call_def)
next
  case (snoc kt ktds)
  let ?acc = "foldl store_call [] ktds"
  have len: "length (foldl store_call [] (ktds @ [kt]))
      = max (length ?acc) (Suc (fst kt))"
    by (simp add: store_call_def length_array_set)
  have "set (0 # map (\<lambda>kt. Suc (fst kt)) (ktds @ [kt]))
      = insert (Suc (fst kt)) (set (0 # map (\<lambda>kt. Suc (fst kt)) ktds))"
    by auto
  then have "Max (set (0 # map (\<lambda>kt. Suc (fst kt)) (ktds @ [kt])))
      = max (Suc (fst kt)) (Max (set (0 # map (\<lambda>kt. Suc (fst kt)) ktds)))"
    by (metis Max_insert finite_set list.set(2) insert_not_empty)
  then have 1: "length (foldl store_call [] (ktds @ [kt]))
      = Max (set (0 # map (\<lambda>kt. Suc (fst kt)) (ktds @ [kt])))"
    using snoc len by (simp add: max.commute)
  have step: "foldl store_call [] (ktds @ [kt])
      = array_set ?acc (fst kt) (merged_call (array_get ?acc (fst kt)) (snd kt))"
    by (simp add: store_call_def)
  have IH2: "array_get ?acc i = spec_tool_call (map snd (filter (\<lambda>kt. fst kt = i) ktds))" for i
    using snoc by blast
  have 2: "array_get (foldl store_call [] (ktds @ [kt])) i
          = spec_tool_call (map snd (filter (\<lambda>kt. fst kt = i) (ktds @ [kt])))" for i
    unfolding step by (simp add: array_get_set IH2 spec_tool_call_snoc)
  show ?case using 1 2 by blast
qed

lemma stored_calls_spec: "foldl store_call [] ktds = spec_tool_calls ktds"
proof (rule nth_equalityI)
  show "length (foldl store_call [] ktds) = length (spec_tool_calls ktds)"
    using stored_calls[of ktds] by (simp add: spec_tool_calls_def)
next
  fix i assume i: "i < length (foldl store_call [] ktds)"
  then have "foldl store_call [] ktds ! i = array_get (foldl store_call [] ktds) i"
    by (simp add: array_get_def)
  moreover have "i < Max (set (0 # map (\<lambda>kt. Suc (fst kt)) ktds))"
    using i stored_calls[of ktds] by simp
  ultimately show "foldl store_call [] ktds ! i = spec_tool_calls ktds ! i"
    using stored_calls[of ktds] by (simp add: spec_tool_calls_def)
qed

lemma usage_last:
  assumes "\<forall>c \<in> set chunks. so_response_usage c = None"
  shows "collectResponseUsage None chunks = spec_usage chunks"
  using assms
proof (induction chunks rule: rev_induct)
  case Nil
  then show ?case by (simp add: collectResponseUsage_def spec_usage_def)
next
  case (snoc c chunks)
  then have IH: "collectResponseUsage None chunks = spec_usage chunks" by simp
  have r: "so_response_usage c = None" using snoc.prems by simp
  show ?case
  proof (cases "so_usage c")
    case None
    then show ?thesis using IH r
      by (simp add: collectResponseUsage_def spec_usage_def)
  next
    case (Some u)
    then show ?thesis
      by (simp add: collectResponseUsage_def spec_usage_def)
  qed
qed

text \<open>
  Claim C3. For every non-empty list of chat.completion.chunk stream objects the
  aggregated message has: as content, the concatenation in list order of every defined,
  non-null \<^verbatim>\<open>choices[0].delta.content\<close> (the property is left out when that is empty);
  as tool calls, the array keyed by each tool-call delta's index, or by its position when
  it has none, in which a later delta's id, type and function name overwrite the stored
  ones when present and the function-argument fragments are concatenated in arrival
  order; as role, that of the last delta that carries one, \<^verbatim>\<open>assistant\<close> otherwise. The
  reported usage is the usage of the last stream object that carries one.
\<close>
theorem aggregateOpenAIStreamChunks_spec:
  assumes "chunks \<noteq> []" and "\<forall>c \<in> set chunks. so_response_usage c = None"
  shows "map_option msg_role (aggregateOpenAIStreamChunks chunks)
           = Some (spec_role (stream_deltas chunks))
    \<and> map_option msg_content (aggregateOpenAIStreamChunks chunks)
           = Some (if spec_content (stream_deltas chunks) = [] then None
                   else Some (spec_content (stream_deltas chunks)))
    \<and> map_option msg_tool_calls (aggregateOpenAIStreamChunks chunks)
           = Some (if spec_tool_calls (concat (map keyed_tool_deltas (stream_deltas chunks))) = []
                   then None
                   else Some (spec_tool_calls
                                (concat (map keyed_tool_deltas (stream_deltas chunks)))))
    \<and> collectResponseUsage None chunks = spec_usage chunks"
  using assms
  by (simp add: aggregateOpenAIStreamChunks_def Let_def fold_chunks_deltas fold_role
      fold_content fold_toolCalls stored_calls_spec usage_last spec_role_def)

theorem aggregateOpenAIStreamChunks_spec_witness:
  "[content_chunk (str ''A''), content_chunk (str ''B''),
    tool_chunk [\<lparr>td_index = Some 0, td_id = Some (str ''call_1''), td_type = Some (str ''function''),
                 td_function = Some \<lparr>fd_name = Some (str ''f''), fd_arguments = Some (str ''{'')\<rparr>\<rparr>],
    tool_chunk [\<lparr>td_index = None, td_id = None, td_type = None,
                 td_function = Some \<lparr>fd_name = None, fd_arguments = Some (str ''}'')\<rparr>\<rparr>],
    usage_chunk (3::nat)] \<noteq> []
   \<and> map_option msg_role (aggregateOpenAIStreamChunks
      [content_chunk (str ''A''), content_chunk (str ''B''),
       tool_chunk [\<lparr>td_index = Some 0, td_id = Some (str ''call_1''), td_type = Some (str ''function''),
                 td_function = Some \<lparr>fd_name = Some (str ''f''), fd_arguments = Some (str ''{'')\<rparr>\<rparr>],
       tool_chunk [\<lparr>td_index = None, td_id = None, td_type = None,
                 td_function = Some \<lparr>fd_name = None, fd_arguments = Some (str ''}'')\<rparr>\<rparr>],
       usage_chunk (3::nat)]) = Some (str ''assistant'')
   \<and> map_option msg_content (aggregateOpenAIStreamChunks
      [content_chunk (str ''A''), content_chunk (str ''B''),
       tool_chunk [\<lparr>td_index = Some 0, td_id = Some (str ''call_1''), td_type = Some (str ''function''),
                 td_function = Some \<lparr>fd_name = Some (str ''f''), fd_arguments = Some (str ''{'')\<rparr>\<rparr>],
       tool_chunk [\<lparr>td_index = None, td_id = None, td_type = None,
                 td_function = Some \<lparr>fd_name = None, fd_arguments = Some (str ''}'')\<rparr>\<rparr>],
       usage_chunk (3::nat)]) = Some (Some (str ''AB''))
   \<and> map_option msg_tool_calls (aggregateOpenAIStreamChunks
      [content_chunk (str ''A''), content_chunk (str ''B''),
       tool_chunk [\<lparr>td_index = Some 0, td_id = Some (str ''call_1''), td_type = Some (str ''function''),
                 td_function = Some \<lparr>fd_name = Some (str ''f''), fd_arguments = Some (str ''{'')\<rparr>\<rparr>],
       tool_chunk [\<lparr>td_index = None, td_id = None, td_type = None,
                 td_function = Some \<lparr>fd_name = None, fd_arguments = Some (str ''}'')\<rparr>\<rparr>],
       usage_chunk (3::nat)])
     = Some (Some [Some \<lparr>call_id = Some (str ''call_1''), call_type = Some (str ''function''),
                          call_function_name = str ''f'',
                          call_function_arguments = str ''{}''\<rparr>])
   \<and> collectResponseUsage None
      [content_chunk (str ''A''), content_chunk (str ''B''),
       tool_chunk [\<lparr>td_index = Some 0, td_id = Some (str ''call_1''), td_type = Some (str ''function''),
                 td_function = Some \<lparr>fd_name = Some (str ''f''), fd_arguments = Some (str ''{'')\<rparr>\<rparr>],
       tool_chunk [\<lparr>td_index = None, td_id = None, td_type = None,
                 td_function = Some \<lparr>fd_name = None, fd_arguments = Some (str ''}'')\<rparr>\<rparr>],
       usage_chunk (3::nat)] = Some 3"
proof -
  let ?chunks = "[content_chunk (str ''A''), content_chunk (str ''B''),
       tool_chunk [\<lparr>td_index = Some 0, td_id = Some (str ''call_1''), td_type = Some (str ''function''),
                 td_function = Some \<lparr>fd_name = Some (str ''f''), fd_arguments = Some (str ''{'')\<rparr>\<rparr>],
       tool_chunk [\<lparr>td_index = None, td_id = None, td_type = None,
                 td_function = Some \<lparr>fd_name = None, fd_arguments = Some (str ''}'')\<rparr>\<rparr>],
       usage_chunk (3::nat)]"
  have h1: "?chunks \<noteq> []" by simp
  have h2: "\<forall>c \<in> set ?chunks. so_response_usage c = None"
    by (simp add: content_chunk_def tool_chunk_def usage_chunk_def)
  have ds: "stream_deltas ?chunks =
      [\<lparr>delta_role = None, delta_content = Some (str ''A''),
         delta_reasoning_content = None, delta_tool_calls = None\<rparr>,
       \<lparr>delta_role = None, delta_content = Some (str ''B''),
         delta_reasoning_content = None, delta_tool_calls = None\<rparr>,
       \<lparr>delta_role = None, delta_content = None, delta_reasoning_content = None,
         delta_tool_calls = Some [\<lparr>td_index = Some 0, td_id = Some (str ''call_1''),
           td_type = Some (str ''function''),
           td_function = Some \<lparr>fd_name = Some (str ''f''), fd_arguments = Some (str ''{'')\<rparr>\<rparr>]\<rparr>,
       \<lparr>delta_role = None, delta_content = None, delta_reasoning_content = None,
         delta_tool_calls = Some [\<lparr>td_index = None, td_id = None, td_type = None,
           td_function = Some \<lparr>fd_name = None, fd_arguments = Some (str ''}'')\<rparr>\<rparr>]\<rparr>]"
    by (simp add: stream_deltas_def map_filter_simps chunk_delta_def content_chunk_def
        tool_chunk_def usage_chunk_def ensureArray_def)
  have u: "spec_usage ?chunks = Some 3"
    by (simp add: spec_usage_def content_chunk_def tool_chunk_def usage_chunk_def)
  show ?thesis
    using aggregateOpenAIStreamChunks_spec[OF h1 h2]
    unfolding ds u
    by (simp add: spec_role_def spec_content_def last_present_def truthy_def or_empty_def
        keyed_tool_deltas_def ensureArray_def spec_tool_calls_def spec_tool_call_def
        td_name_def td_arguments_def str_def)
qed

subsection \<open>Anthropic message streams\<close>

lemma withBlock_map:
  "map_of (cs_blocks (withBlock st i f))
   = (map_of (cs_blocks st))(i \<mapsto> f (getBlock (cs_blocks st) i))"
  by (simp add: withBlock_def update_conv')

lemma withBlock_distinct:
  "distinct (map fst (cs_blocks st)) \<Longrightarrow> distinct (map fst (cs_blocks (withBlock st i f)))"
  by (simp add: withBlock_def distinct_update)

lemma withBlock_rest:
  "cs_role (withBlock st i f) = cs_role st \<and> cs_reasoning (withBlock st i f) = cs_reasoning st"
  by (simp add: withBlock_def)

lemma processEvent_distinct:
  "distinct (map fst (cs_blocks st)) \<Longrightarrow>
   distinct (map fst (cs_blocks (processEvent P st event)))"
  by (simp add: processEvent_def Let_def withBlock_distinct)

lemma claudeState_distinct: "distinct (map fst (cs_blocks (claudeState P events)))"
proof -
  have "distinct (map fst (cs_blocks st)) \<Longrightarrow>
      distinct (map fst (cs_blocks (foldl (processEvent P) st events)))" for st
    by (induction events arbitrary: st) (simp_all add: processEvent_distinct)
  then show ?thesis by (simp add: claudeState_def)
qed

lemma listed_ascending:
  assumes "distinct (map fst blocks)"
  shows "sorted_wrt (<) (map fst (listedBlocks blocks))"
proof -
  have "distinct (map fst (sort_key fst blocks))"
    using assms by (simp add: distinct_map)
  moreover have "sorted (map fst (sort_key fst blocks))" by simp
  ultimately have "sorted_wrt (<) (map fst (sort_key fst blocks))"
    by (simp add: strict_sorted_iff)
  then have "sorted_wrt (\<lambda>a b. fst a < fst b) (sort_key fst blocks)"
    by (simp add: sorted_wrt_map)
  then have "sorted_wrt (\<lambda>a b. fst a < fst b) (listedBlocks blocks)"
    unfolding listedBlocks_def by (rule sorted_wrt_filter)
  then show ?thesis by (simp add: sorted_wrt_map)
qed

lemma listed_set:
  assumes "distinct (map fst blocks)"
  shows "set (listedBlocks blocks)
       = {entry. map_of blocks (fst entry) = Some (snd entry)
                 \<and> b_type (snd entry) \<noteq> str ''reasoning''}"
  using assms by (auto simp: listedBlocks_def)

lemma rule_start:
  "ev_type event = Some (str ''content_block_start'') \<longrightarrow>
        (\<forall>i. i = (case ev_index event of Some i \<Rightarrow> i | None \<Rightarrow> length (cs_blocks st)) \<longrightarrow>
          map_of (cs_blocks (processEvent P st event))
            = (map_of (cs_blocks st))(i \<mapsto> seedBlock (ev_content_block event) (getBlock (cs_blocks st) i)))"
  by (simp add: processEvent_def Let_def withBlock_map str_def)

lemma rule_seed:
  "\<forall>cb b. b_type (seedBlock (Some cb) b)
                  = (if truthy (cb_type cb) then or_empty (cb_type cb) else b_type b)
             \<and> b_text (seedBlock (Some cb) b) = or_empty (cb_text cb)
             \<and> b_name (seedBlock (Some cb) b) = cb_name cb
             \<and> b_id (seedBlock (Some cb) b) = cb_id cb
             \<and> b_input (seedBlock (Some cb) b) = cb_input cb
             \<and> b_content (seedBlock (Some cb) b) = cb_content cb
             \<and> b_partialJson (seedBlock (Some cb) b) = b_partialJson b"
  by (simp add: seedBlock_def)

lemma rule_delta:
  "ev_type event = Some (str ''content_block_delta'') \<longrightarrow>
        (\<forall>i. i = (case ev_index event of Some i \<Rightarrow> i | None \<Rightarrow> 0) \<longrightarrow>
          map_of (cs_blocks (processEvent P st event))
            = (map_of (cs_blocks st))(i \<mapsto> applyDelta (ev_delta event) (getBlock (cs_blocks st) i)))"
  by (simp add: processEvent_def Let_def withBlock_map str_def)

lemma rule_apply:
  "\<forall>d b. (ed_type d = Some (str ''text_delta'') \<longrightarrow>
                 b_text (applyDelta (Some d) b) = b_text b @ or_empty (ed_text d)
               \<and> b_reasoning (applyDelta (Some d) b) = b_reasoning b
               \<and> b_partialJson (applyDelta (Some d) b) = b_partialJson b)
           \<and> (ed_type d = Some (str ''thinking_delta'') \<longrightarrow>
                 applyDelta (Some d) b
                   = b\<lparr>b_reasoning := b_reasoning b @ or_empty (ed_thinking d)\<rparr>)
           \<and> (ed_type d = Some (str ''input_json_delta'') \<longrightarrow>
                 applyDelta (Some d) b
                   = b\<lparr>b_partialJson := b_partialJson b
                        @ (case ed_partial_json d of Some s \<Rightarrow> s
                           | None \<Rightarrow> or_empty (ed_partialJson d))\<rparr>)"
  by (simp add: applyDelta_def Let_def str_def split: option.splits)

lemma rule_stop:
  "ev_type event = Some (str ''content_block_stop'') \<longrightarrow>
        (\<forall>i. i = (case ev_index event of Some i \<Rightarrow> i | None \<Rightarrow> 0) \<longrightarrow>
          map_of (cs_blocks (processEvent P st event))
            = (map_of (cs_blocks st))(i \<mapsto> stopBlock P (getBlock (cs_blocks st) i)))"
  by (simp add: processEvent_def Let_def withBlock_map str_def)

lemma rule_parse:
  "\<forall>b. (b_partialJson b = [] \<longrightarrow> stopBlock P b = b)
         \<and> (b_partialJson b \<noteq> [] \<longrightarrow>
              stopBlock P b
                = b\<lparr>b_input := Some (case P (b_partialJson b) of
                                        None \<Rightarrow> JStr (b_partialJson b)
                                      | Some v \<Rightarrow> if v = JNull then JStr (b_partialJson b) else v)\<rparr>)"
  by (simp add: stopBlock_def safeParseJson_def Let_def split: option.splits)

lemma rule_message_delta:
  "ev_type event = Some (str ''message_delta'') \<longrightarrow>
        cs_blocks (processEvent P st event) = cs_blocks st
      \<and> cs_role (processEvent P st event)
          = (if truthy (Option.bind (ev_delta event) ed_role)
             then or_empty (Option.bind (ev_delta event) ed_role) else cs_role st)
      \<and> cs_reasoning (processEvent P st event)
          = cs_reasoning st @ normaliseContent (Option.bind (ev_delta event) ed_reasoning)"
  by (simp add: processEvent_def Let_def str_def normaliseContent_def)

lemma rule_content:
  "events \<noteq> [] \<longrightarrow>
        map_option cm_content (aggregateClaudeStreamEvents P events)
          = Some (if listedBlocks (cs_blocks (claudeState P events)) = [] then None
                  else Some (map (\<lambda>entry. renderBlock (snd entry))
                               (listedBlocks (cs_blocks (claudeState P events)))))"
  by (simp add: aggregateClaudeStreamEvents_def claudeState_def Let_def)

lemma rule_ascending:
  "sorted_wrt (<) (map fst (listedBlocks (cs_blocks (claudeState P events))))"
  by (rule listed_ascending[OF claudeState_distinct])

lemma rule_listed:
  "set (listedBlocks (cs_blocks (claudeState P events)))
        = {entry. map_of (cs_blocks (claudeState P events)) (fst entry) = Some (snd entry)
                  \<and> b_type (snd entry) \<noteq> str ''reasoning''}"
  by (rule listed_set[OF claudeState_distinct])

text \<open>
  Claim C4 (as amended). The aggregator keeps a map of content blocks keyed by the
  event's index (the size of the map for a \<^verbatim>\<open>content_block_start\<close> without index, 0 for
  a delta or stop without index), and each event changes only the block at its index:
  \<^verbatim>\<open>content_block_start\<close> seeds the block's type, text, name, id, input and content from
  the event's content block; a \<^verbatim>\<open>content_block_delta\<close> of subtype \<^verbatim>\<open>text_delta\<close> appends
  the delta's text to the block's text, \<^verbatim>\<open>thinking_delta\<close> appends its thinking to the
  block's reasoning, \<^verbatim>\<open>input_json_delta\<close> appends its partial JSON to the block's buffer;
  \<^verbatim>\<open>content_block_stop\<close> leaves a block with an empty buffer as it is and otherwise
  assigns to the block's input the parsed buffer, or the raw buffer string when parsing
  fails or yields null; \<^verbatim>\<open>message_delta\<close> updates the role and appends to the top-level
  reasoning. The final message lists the blocks whose type is not \<^verbatim>\<open>reasoning\<close>, in
  ascending index order.
\<close>
theorem aggregateClaudeStreamEvents_rules:
  "(ev_type event = Some (str ''content_block_start'') \<longrightarrow>
        (\<forall>i. i = (case ev_index event of Some i \<Rightarrow> i | None \<Rightarrow> length (cs_blocks st)) \<longrightarrow>
          map_of (cs_blocks (processEvent P st event))
            = (map_of (cs_blocks st))(i \<mapsto> seedBlock (ev_content_block event) (getBlock (cs_blocks st) i))))
   \<and> (\<forall>cb b. b_type (seedBlock (Some cb) b)
                  = (if truthy (cb_type cb) then or_empty (cb_type cb) else b_type b)
             \<and> b_text (seedBlock (Some cb) b) = or_empty (cb_text cb)
             \<and> b_name (seedBlock (Some cb) b) = cb_name cb
             \<and> b_id (seedBlock (Some cb) b) = cb_id cb
             \<and> b_input (seedBlock (Some cb) b) = cb_input cb
             \<and> b_content (seedBlock (Some cb) b) = cb_content cb
             \<and> b_partialJson (seedBlock (Some cb) b) = b_partialJson b)
   \<and> (ev_type event = Some (str ''content_block_delta'') \<longrightarrow>
        (\<forall>i. i = (case ev_index event of Some i \<Rightarrow> i | None \<Rightarrow> 0) \<longrightarrow>
          map_of (cs_blocks (processEvent P st event))
            = (map_of (cs_blocks st))(i \<mapsto> applyDelta (ev_delta event) (getBlock (cs_blocks st) i))))
   \<and> (\<forall>d b. (ed_type d = Some (str ''text_delta'') \<longrightarrow>
                 b_text (applyDelta (Some d) b) = b_text b @ or_empty (ed_text d)
               \<and> b_reasoning (applyDelta (Some d) b) = b_reasoning b
               \<and> b_partialJson (applyDelta (Some d) b) = b_partialJson b)
           \<and> (ed_type d = Some (str ''thinking_delta'') \<longrightarrow>
                 applyDelta (Some d) b
                   = b\<lparr>b_reasoning := b_reasoning b @ or_empty (ed_thinking d)\<rparr>)
           \<and> (ed_type d = Some (str ''input_json_delta'') \<longrightarrow>
                 applyDelta (Some d) b
                   = b\<lparr>b_partialJson := b_partialJson b
                        @ (case ed_partial_json d of Some s \<Rightarrow> s
                           | None \<Rightarrow> or_empty (ed_partialJson d))\<rparr>))
   \<and> (ev_type event = Some (str ''content_block_stop'') \<longrightarrow>
        (\<forall>i. i = (case ev_index event of Some i \<Rightarrow> i | None \<Rightarrow> 0) \<longrightarrow>
          map_of (cs_blocks (processEvent P st event))
            = (map_of (cs_blocks st))(i \<mapsto> stopBlock P (getBlock (cs_blocks st) i))))
   \<and> (\<forall>b. (b_partialJson b = [] \<longrightarrow> stopBlock P b = b)
         \<and> (b_partialJson b \<noteq> [] \<longrightarrow>
              stopBlock P b
                = b\<lparr>b_input := Some (case P (b_partialJson b) of
                                        None \<Rightarrow> JStr (b_partialJson b)
                                      | Some v \<Rightarrow> if v = JNull then JStr (b_partialJson b) else v)\<rparr>))
   \<and> (ev_type event = Some (str ''message_delta'') \<longrightarrow>
        cs_blocks (processEvent P st event) = cs_blocks st
      \<and> cs_role (processEvent P st event)
          = (if truthy (Option.bind (ev_delta event) ed_role)
             then or_empty (Option.bind (ev_delta event) ed_role) else cs_role st)
      \<and> cs_reasoning (processEvent P st event)
          = cs_reasoning st @ normaliseContent (Option.bind (ev_delta event) ed_reasoning))
   \<and> (events \<noteq> [] \<longrightarrow>
        map_option cm_content (aggregateClaudeStreamEvents P events)
          = Some (if listedBlocks (cs_blocks (claudeState P events)) = [] then None
                  else Some (map (\<lambda>entry. renderBlock (snd entry))
                               (listedBlocks (cs_blocks (claudeState P events))))))
   \<and> (sorted_wrt (<) (map fst (listedBlocks (cs_blocks (claudeState P events)))))
   \<and> (set (listedBlocks (cs_blocks (claudeState P events)))
        = {entry. map_of (cs_blocks (claudeState P events)) (fst entry) = Some (snd entry)
                  \<and> b_type (snd entry) \<noteq> str ''reasoning''})"
  by (intro conjI; (rule rule_start | rule rule_seed | rule rule_delta | rule rule_apply | rule rule_stop | rule rule_parse | rule rule_message_delta | rule rule_content | rule rule_ascending | rule rule_listed))

lemma claudeState_text_stream:
  "cs_blocks (claudeState failing_parse
     [start_event 0 (block_of_type (str ''text'')),
      text_delta_event 0 (str ''Hel''), text_delta_event 0 (str ''lo''), stop_event 0])
   = [(0, newBlock\<lparr>b_text := str ''Hello''\<rparr>)]"
  by (simp add: claudeState_def processEvent_def start_event_def text_delta_event_def
      stop_event_def block_of_type_def Let_def withBlock_def getBlock_def seedBlock_def
      applyDelta_def stopBlock_def newBlock_def truthy_def or_empty_def str_def)

theorem aggregateClaudeStreamEvents_rules_witness:
  "map_option cm_content (aggregateClaudeStreamEvents failing_parse
     [start_event 0 (block_of_type (str ''text'')),
      text_delta_event 0 (str ''Hel''), text_delta_event 0 (str ''lo''), stop_event 0])
   = Some (Some [TextItem (str ''Hello'')])
   \<and> ev_type (text_delta_event 0 (str ''lo'')) = Some (str ''content_block_delta'')
   \<and> map_of (cs_blocks (processEvent failing_parse
        \<lparr>cs_blocks = [(0, newBlock\<lparr>b_text := str ''Hel''\<rparr>)], cs_role = str ''assistant'',
         cs_reasoning = []\<rparr> (text_delta_event 0 (str ''lo'')))) 0
     = Some (newBlock\<lparr>b_text := str ''Hello''\<rparr>)"
proof -
  have t: "ev_type (text_delta_event 0 (str ''lo'')) = Some (str ''content_block_delta'')"
    by (simp add: text_delta_event_def)
  have a: "applyDelta (ev_delta (text_delta_event 0 (str ''lo''))) (newBlock\<lparr>b_text := str ''Hel''\<rparr>)
      = newBlock\<lparr>b_text := str ''Hello''\<rparr>"
    by (simp add: text_delta_event_def applyDelta_def Let_def newBlock_def or_empty_def str_def)
  have l: "listedBlocks [(0, newBlock\<lparr>b_text := str ''Hello''\<rparr>)]
      = [(0, newBlock\<lparr>b_text := str ''Hello''\<rparr>)]"
    by (simp add: listedBlocks_def newBlock_def str_def)
  have r: "renderBlock (newBlock\<lparr>b_text := str ''Hello''\<rparr>) = TextItem (str ''Hello'')"
    by (simp add: renderBlock_def newBlock_def)
  show ?thesis
    using aggregateClaudeStreamEvents_rules[of "text_delta_event 0 (str ''lo'')"
        "\<lparr>cs_blocks = [(0, newBlock\<lparr>b_text := str ''Hel''\<rparr>)], cs_role = str ''assistant'',
         cs_reasoning = []\<rparr>" failing_parse
        "[start_event 0 (block_of_type (str ''text'')),
          text_delta_event 0 (str ''Hel''), text_delta_event 0 (str ''lo''), stop_event 0]"]
    by (simp add: t a l r claudeState_text_stream getBlock_def)
       (simp add: text_delta_event_def)
qed

text \<open>
  The claim as stated fails in two places. A \<^verbatim>\<open>content_block_stop\<close> of a block whose
  buffer is empty assigns nothing: the tool-use block seeded with the input \<^verbatim>\<open>{}\<close>
  keeps it, although parsing the empty buffer fails and the claim would have the raw
  (empty) buffer string assigned. And a block of type \<^verbatim>\<open>reasoning\<close> is in the map but
  not in the final message.
\<close>

theorem unparsed_and_unlisted_blocks_counterexample:
  "map_option cm_content (aggregateClaudeStreamEvents failing_parse
     [start_event 0 \<lparr>cb_type = Some (str ''tool_use''), cb_text = None,
        cb_name = Some (str ''f''), cb_id = Some (str ''t1''), cb_input = Some (JObj []),
        cb_content = None, cb_thinking = None\<rparr>,
      stop_event 0])
   = Some (Some [ToolUseItem (Some (str ''t1'')) (Some (str ''f'')) (Some (JObj []))])
   \<and> failing_parse [] = None
   \<and> ToolUseItem (Some (str ''t1'')) (Some (str ''f'')) (Some (JObj []))
       \<noteq> ToolUseItem (Some (str ''t1'')) (Some (str ''f'')) (Some (JStr []))
   \<and> map fst (cs_blocks (claudeState failing_parse
        [start_event 0 (block_of_type (str ''reasoning''))])) = [0]
   \<and> map_option cm_content (aggregateClaudeStreamEvents failing_parse
        [start_event 0 (block_of_type (str ''reasoning''))]) = Some None"
  by (simp add: aggregateClaudeStreamEvents_def claudeState_def processEvent_def
      start_event_def stop_event_def block_of_type_def Let_def withBlock_def getBlock_def
      seedBlock_def stopBlock_def newBlock_def truthy_def or_empty_def str_def
      listedBlocks_def renderBlock_def failing_parse_def)

section \<open>Properties of the upstream transport\<close>

subsection \<open>Pass-through header hygiene\<close>

lemma ToLower_Nil [simp]: "ToLower s = [] \<longleftrightarrow> s = []"
  by (simp add: ToLower_def)

lemma denied_not_copied:
  "ToLower k \<in> deny \<Longrightarrow> copyHeadersExcept Map.empty src deny k = None"
  by (simp add: copyHeadersExcept_def split: option.splits)

lemma connection_token_denied:
  assumes "v \<in> set (Header_Values src (str ''Connection''))" and "t \<in> set (Split 44 v)"
    and "strings_TrimSpace t \<noteq> []"
  shows "ToLower (strings_TrimSpace t) \<in> buildPassThroughHeaderDenySet src extra"
proof -
  have "t \<in> set (concat (map (Split 44) (Header_Values src (str ''Connection''))))"
    using assms(1,2) by auto
  then have "ToLower (strings_TrimSpace t) \<in> set (connectionTokens src)"
    using assms(3) by (auto simp: connectionTokens_def)
  then show ?thesis by (simp add: buildPassThroughHeaderDenySet_def)
qed

lemma named_headers_denied:
  "\<forall>k \<in> set (map str [''Authorization'', ''Cookie'', ''Api-Key'', ''X-Api-Key'', ''Connection'',
       ''Keep-Alive'', ''Proxy-Authenticate'', ''Proxy-Authorization'', ''Te'', ''Trailer'',
       ''Transfer-Encoding'', ''Upgrade'', ''Proxy-Connection'', ''Host'', ''Content-Length'',
       ''api-key'', ''x-api-key'']).
     ToLower k \<in> set passThroughDenyHeaders"
  by (simp add: ToLower_def str_def passThroughDenyHeaders_def)

lemma deny_set_exactly:
  "k \<in> buildPassThroughHeaderDenySet src []
   \<longleftrightarrow> k \<in> set (map str [''authorization'', ''cookie'', ''api-key'', ''x-api-key'', ''connection'',
       ''keep-alive'', ''proxy-authenticate'', ''proxy-authorization'', ''te'', ''trailer'',
       ''transfer-encoding'', ''upgrade'', ''proxy-connection'', ''host'', ''content-length''])
     \<or> (\<exists>v \<in> set (Header_Values src (str ''Connection'')). \<exists>t \<in> set (Split 44 v).
           strings_TrimSpace t \<noteq> [] \<and> k = ToLower (strings_TrimSpace t))"
proof -
  have tok: "k \<in> set (connectionTokens src)
      \<longleftrightarrow> (\<exists>v \<in> set (Header_Values src (str ''Connection'')). \<exists>t \<in> set (Split 44 v).
             strings_TrimSpace t \<noteq> [] \<and> k = ToLower (strings_TrimSpace t))"
  proof
    assume "k \<in> set (connectionTokens src)"
    then have im: "k \<in> (\<lambda>t. ToLower (strings_TrimSpace t))
          ` set (concat (map (Split 44) (Header_Values src (str ''Connection''))))"
      and ne: "k \<noteq> []"
      by (simp_all add: connectionTokens_def)
    from im obtain t
      where t: "t \<in> set (concat (map (Split 44) (Header_Values src (str ''Connection''))))"
        and k: "k = ToLower (strings_TrimSpace t)"
      by (rule imageE)
    from t obtain v where v: "v \<in> set (Header_Values src (str ''Connection''))"
      "t \<in> set (Split 44 v)"
      by auto
    have "strings_TrimSpace t \<noteq> []" using k ne by simp
    then show "\<exists>v \<in> set (Header_Values src (str ''Connection'')). \<exists>t \<in> set (Split 44 v).
             strings_TrimSpace t \<noteq> [] \<and> k = ToLower (strings_TrimSpace t)"
      using v k by blast
  next
    assume "\<exists>v \<in> set (Header_Values src (str ''Connection'')). \<exists>t \<in> set (Split 44 v).
             strings_TrimSpace t \<noteq> [] \<and> k = ToLower (strings_TrimSpace t)"
    then obtain v t where "v \<in> set (Header_Values src (str ''Connection''))"
      "t \<in> set (Split 44 v)" "strings_TrimSpace t \<noteq> []" "k = ToLower (strings_TrimSpace t)"
      by blast
    then show "k \<in> set (connectionTokens src)"
      using connection_token_denied[of v src t "[]"]
      by (simp add: buildPassThroughHeaderDenySet_def connectionTokens_def) blast
  qed
  have low: "set (map str [''authorization'', ''cookie'', ''api-key'', ''x-api-key'', ''connection'',
       ''keep-alive'', ''proxy-authenticate'', ''proxy-authorization'', ''te'', ''trailer'',
       ''transfer-encoding'', ''upgrade'', ''proxy-connection'', ''host'', ''content-length'']) = set passThroughDenyHeaders"
    by (simp add: passThroughDenyHeaders_def)
  show ?thesis unfolding low tok[symmetric] by (simp add: buildPassThroughHeaderDenySet_def)
qed

text \<open>
  Claim C1. For every inbound header map processed in pass-through mode, the header map
  produced by \<open>buildPassThroughHeaderDenySet\<close> and \<open>copyHeadersExcept\<close> has no header
  whose name, compared without regard to case, is \<^verbatim>\<open>Authorization\<close>, \<^verbatim>\<open>Cookie\<close>,
  \<^verbatim>\<open>api-key\<close>, \<^verbatim>\<open>x-api-key\<close>, \<^verbatim>\<open>Connection\<close>, \<^verbatim>\<open>Keep-Alive\<close>,
  \<^verbatim>\<open>Proxy-Authenticate\<close>, \<^verbatim>\<open>Proxy-Authorization\<close>, \<^verbatim>\<open>Te\<close>, \<^verbatim>\<open>Trailer\<close>,
  \<^verbatim>\<open>Transfer-Encoding\<close>, \<^verbatim>\<open>Upgrade\<close>, \<^verbatim>\<open>Proxy-Connection\<close>, \<^verbatim>\<open>Host\<close> or
  \<^verbatim>\<open>Content-Length\<close>, and none whose name is a token of the comma-separated list in an
  inbound \<^verbatim>\<open>Connection\<close> value (surrounding whitespace ignored, case ignored); every
  other header, that is every header whose name is none of these fifteen and no such
  token, is copied with all its values in order. The deny set holds these fifteen names
  and these tokens, in lower case, and nothing else.
\<close>
theorem passthrough_header_filter:
  "(\<forall>k. ToLower k \<in> set passThroughDenyHeaders \<longrightarrow>
        copyHeadersExcept Map.empty src (buildPassThroughHeaderDenySet src []) k = None)
   \<and> (\<forall>k \<in> set (map str [''Authorization'', ''Cookie'', ''Api-Key'', ''X-Api-Key'', ''Connection'',
       ''Keep-Alive'', ''Proxy-Authenticate'', ''Proxy-Authorization'', ''Te'', ''Trailer'',
       ''Transfer-Encoding'', ''Upgrade'', ''Proxy-Connection'', ''Host'', ''Content-Length'',
       ''api-key'', ''x-api-key'']).
        copyHeadersExcept Map.empty src (buildPassThroughHeaderDenySet src []) k = None)
   \<and> (\<forall>k v t. v \<in> set (Header_Values src (str ''Connection'')) \<and> t \<in> set (Split 44 v)
          \<and> strings_TrimSpace t \<noteq> [] \<and> ToLower (strings_TrimSpace t) = ToLower k \<longrightarrow>
        copyHeadersExcept Map.empty src (buildPassThroughHeaderDenySet src []) k = None)
   \<and> (\<forall>k vs. src k = Some vs \<and> vs \<noteq> []
          \<and> ToLower k \<notin> buildPassThroughHeaderDenySet src [] \<longrightarrow>
        copyHeadersExcept Map.empty src (buildPassThroughHeaderDenySet src []) k = Some vs)
   \<and> (\<forall>k. ToLower k \<in> set (map str [''authorization'', ''cookie'', ''api-key'', ''x-api-key'', ''connection'',
       ''keep-alive'', ''proxy-authenticate'', ''proxy-authorization'', ''te'', ''trailer'',
       ''transfer-encoding'', ''upgrade'', ''proxy-connection'', ''host'', ''content-length'']) \<longrightarrow>
        copyHeadersExcept Map.empty src (buildPassThroughHeaderDenySet src []) k = None)
   \<and> (\<forall>k vs. src k = Some vs \<and> vs \<noteq> []
          \<and> ToLower k \<notin> set (map str [''authorization'', ''cookie'', ''api-key'', ''x-api-key'', ''connection'',
       ''keep-alive'', ''proxy-authenticate'', ''proxy-authorization'', ''te'', ''trailer'',
       ''transfer-encoding'', ''upgrade'', ''proxy-connection'', ''host'', ''content-length''])
          \<and> (\<forall>v \<in> set (Header_Values src (str ''Connection'')). \<forall>t \<in> set (Split 44 v).
                ToLower (strings_TrimSpace t) \<noteq> ToLower k) \<longrightarrow>
        copyHeadersExcept Map.empty src (buildPassThroughHeaderDenySet src []) k = Some vs)
   \<and> (\<forall>k. k \<in> buildPassThroughHeaderDenySet src []
        \<longleftrightarrow> k \<in> set (map str [''authorization'', ''cookie'', ''api-key'', ''x-api-key'', ''connection'',
       ''keep-alive'', ''proxy-authenticate'', ''proxy-authorization'', ''te'', ''trailer'',
       ''transfer-encoding'', ''upgrade'', ''proxy-connection'', ''host'', ''content-length''])
          \<or> (\<exists>v \<in> set (Header_Values src (str ''Connection'')). \<exists>t \<in> set (Split 44 v).
                strings_TrimSpace t \<noteq> [] \<and> k = ToLower (strings_TrimSpace t)))
   \<and> (\<forall>k. src k = None \<longrightarrow>
        copyHeadersExcept Map.empty src (buildPassThroughHeaderDenySet src []) k = None)"
proof -
  let ?out = "copyHeadersExcept Map.empty src (buildPassThroughHeaderDenySet src [])"
  have low: "set (map str [''authorization'', ''cookie'', ''api-key'', ''x-api-key'', ''connection'',
       ''keep-alive'', ''proxy-authenticate'', ''proxy-authorization'', ''te'', ''trailer'',
       ''transfer-encoding'', ''upgrade'', ''proxy-connection'', ''host'', ''content-length'']) = set passThroughDenyHeaders"
    by (simp add: passThroughDenyHeaders_def)
  have c1: "\<forall>k. ToLower k \<in> set passThroughDenyHeaders \<longrightarrow> ?out k = None"
  proof (intro allI impI)
    fix k assume "ToLower k \<in> set passThroughDenyHeaders"
    then show "?out k = None"
      by (intro denied_not_copied) (simp add: buildPassThroughHeaderDenySet_def)
  qed
  have c2: "\<forall>k \<in> set (map str [''Authorization'', ''Cookie'', ''Api-Key'', ''X-Api-Key'', ''Connection'',
       ''Keep-Alive'', ''Proxy-Authenticate'', ''Proxy-Authorization'', ''Te'', ''Trailer'',
       ''Transfer-Encoding'', ''Upgrade'', ''Proxy-Connection'', ''Host'', ''Content-Length'',
       ''api-key'', ''x-api-key'']). ?out k = None"
  proof
    fix k assume "k \<in> set (map str [''Authorization'', ''Cookie'', ''Api-Key'', ''X-Api-Key'', ''Connection'',
       ''Keep-Alive'', ''Proxy-Authenticate'', ''Proxy-Authorization'', ''Te'', ''Trailer'',
       ''Transfer-Encoding'', ''Upgrade'', ''Proxy-Connection'', ''Host'', ''Content-Length'',
       ''api-key'', ''x-api-key''])"
    then have "ToLower k \<in> set passThroughDenyHeaders" using named_headers_denied by blast
    then show "?out k = None" using c1 by blast
  qed
  have c3: "\<forall>k v t. v \<in> set (Header_Values src (str ''Connection'')) \<and> t \<in> set (Split 44 v)
          \<and> strings_TrimSpace t \<noteq> [] \<and> ToLower (strings_TrimSpace t) = ToLower k \<longrightarrow>
        ?out k = None"
  proof (intro allI impI)
    fix k v t
    assume a: "v \<in> set (Header_Values src (str ''Connection'')) \<and> t \<in> set (Split 44 v)
          \<and> strings_TrimSpace t \<noteq> [] \<and> ToLower (strings_TrimSpace t) = ToLower k"
    then have "ToLower k \<in> buildPassThroughHeaderDenySet src []"
      using connection_token_denied[of v src t "[]"] by auto
    then show "?out k = None" by (rule denied_not_copied)
  qed
  have c4: "\<forall>k vs. src k = Some vs \<and> vs \<noteq> []
          \<and> ToLower k \<notin> buildPassThroughHeaderDenySet src [] \<longrightarrow> ?out k = Some vs"
    by (simp add: copyHeadersExcept_def)
  have c5: "\<forall>k. ToLower k \<in> set (map str [''authorization'', ''cookie'', ''api-key'', ''x-api-key'', ''connection'',
       ''keep-alive'', ''proxy-authenticate'', ''proxy-authorization'', ''te'', ''trailer'',
       ''transfer-encoding'', ''upgrade'', ''proxy-connection'', ''host'', ''content-length'']) \<longrightarrow> ?out k = None"
    unfolding low by (rule c1)
  have c6: "\<forall>k vs. src k = Some vs \<and> vs \<noteq> []
          \<and> ToLower k \<notin> set (map str [''authorization'', ''cookie'', ''api-key'', ''x-api-key'', ''connection'',
       ''keep-alive'', ''proxy-authenticate'', ''proxy-authorization'', ''te'', ''trailer'',
       ''transfer-encoding'', ''upgrade'', ''proxy-connection'', ''host'', ''content-length''])
          \<and> (\<forall>v \<in> set (Header_Values src (str ''Connection'')). \<forall>t \<in> set (Split 44 v).
                ToLower (strings_TrimSpace t) \<noteq> ToLower k) \<longrightarrow>
        ?out k = Some vs"
  proof (intro allI impI)
    fix k vs
    assume a: "src k = Some vs \<and> vs \<noteq> []
          \<and> ToLower k \<notin> set (map str [''authorization'', ''cookie'', ''api-key'', ''x-api-key'', ''connection'',
       ''keep-alive'', ''proxy-authenticate'', ''proxy-authorization'', ''te'', ''trailer'',
       ''transfer-encoding'', ''upgrade'', ''proxy-connection'', ''host'', ''content-length''])
          \<and> (\<forall>v \<in> set (Header_Values src (str ''Connection'')). \<forall>t \<in> set (Split 44 v).
                ToLower (strings_TrimSpace t) \<noteq> ToLower k)"
    then have n1: "ToLower k \<notin> set (map str [''authorization'', ''cookie'', ''api-key'', ''x-api-key'', ''connection'',
       ''keep-alive'', ''proxy-authenticate'', ''proxy-authorization'', ''te'', ''trailer'',
       ''transfer-encoding'', ''upgrade'', ''proxy-connection'', ''host'', ''content-length''])" by (elim conjE)
    have n2: "\<not> (\<exists>v \<in> set (Header_Values src (str ''Connection'')). \<exists>t \<in> set (Split 44 v).
           strings_TrimSpace t \<noteq> [] \<and> ToLower k = ToLower (strings_TrimSpace t))"
      using conjunct2[OF conjunct2[OF conjunct2[OF a]]] by fastforce
    have "ToLower k \<notin> buildPassThroughHeaderDenySet src []"
      using n1 n2 deny_set_exactly[of "ToLower k" src] by blast
    then show "?out k = Some vs" using conjunct1[OF a] conjunct1[OF conjunct2[OF a]] c4 by blast
  qed
  have c7: "\<forall>k. k \<in> buildPassThroughHeaderDenySet src []
        \<longleftrightarrow> k \<in> set (map str [''authorization'', ''cookie'', ''api-key'', ''x-api-key'', ''connection'',
       ''keep-alive'', ''proxy-authenticate'', ''proxy-authorization'', ''te'', ''trailer'',
       ''transfer-encoding'', ''upgrade'', ''proxy-connection'', ''host'', ''content-length''])
          \<or> (\<exists>v \<in> set (Header_Values src (str ''Connection'')). \<exists>t \<in> set (Split 44 v).
                strings_TrimSpace t \<noteq> [] \<and> k = ToLower (strings_TrimSpace t))"
    by (intro allI) (rule deny_set_exactly)
  have c8: "\<forall>k. src k = None \<longrightarrow> ?out k = None"
    by (simp add: copyHeadersExcept_def)
  show ?thesis
    by (intro conjI) (rule c1, rule c2, rule c3, rule c4, rule c5, rule c6, rule c7, rule c8)
qed

lemma test_header_values:
  "test_inbound_header (str ''X-Trace-Id'') = Some [str ''abc'']
   \<and> test_inbound_header (str ''X-Multi'') = Some [str ''a'', str ''b'']
   \<and> Header_Values test_inbound_header (str ''Connection'') = [str ''X-Hop, keep-alive'']"
  by (simp add: test_inbound_header_def Header_Set_def Header_Add_def Header_Values_def
      CanonicalHeaderKey_def str_def)

lemma test_deny_set:
  "buildPassThroughHeaderDenySet test_inbound_header []
   = set passThroughDenyHeaders \<union> {str ''x-hop'', str ''keep-alive''}"
proof -
  have "connectionTokens test_inbound_header
      = filter (\<lambda>t. t \<noteq> []) (map (\<lambda>t. ToLower (strings_TrimSpace t))
          (Split 44 (str ''X-Hop, keep-alive'')))"
    by (simp add: connectionTokens_def test_header_values)
  also have "\<dots> = [str ''x-hop'', str ''keep-alive'']"
    by (simp add: strings_TrimSpace_def unicode_IsSpace_def ToLower_def str_def)
  finally show ?thesis by (auto simp add: buildPassThroughHeaderDenySet_def)
qed

theorem passthrough_header_filter_witness:
  "copyHeadersExcept Map.empty test_inbound_header
       (buildPassThroughHeaderDenySet test_inbound_header []) (str ''X-Trace-Id'')
     = Some [str ''abc'']
   \<and> copyHeadersExcept Map.empty test_inbound_header
       (buildPassThroughHeaderDenySet test_inbound_header []) (str ''X-Multi'')
     = Some [str ''a'', str ''b'']
   \<and> copyHeadersExcept Map.empty test_inbound_header
       (buildPassThroughHeaderDenySet test_inbound_header []) (str ''X-Hop'') = None
   \<and> copyHeadersExcept Map.empty test_inbound_header
       (buildPassThroughHeaderDenySet test_inbound_header []) (str ''Authorization'') = None"
proof -
  note T = passthrough_header_filter[of test_inbound_header]
  have tokens: "map (\<lambda>t. ToLower (strings_TrimSpace t)) (Split 44 (str ''X-Hop, keep-alive''))
      = [str ''x-hop'', str ''keep-alive'']"
    by (simp add: strings_TrimSpace_def unicode_IsSpace_def ToLower_def str_def)
  have other: "\<forall>v \<in> set (Header_Values test_inbound_header (str ''Connection'')).
      \<forall>t \<in> set (Split 44 v). ToLower (strings_TrimSpace t) \<noteq> k"
    if "k \<noteq> str ''x-hop''" and "k \<noteq> str ''keep-alive''" for k
  proof (intro ballI)
    fix v t
    assume "v \<in> set (Header_Values test_inbound_header (str ''Connection''))"
      and t: "t \<in> set (Split 44 v)"
    then have "v = str ''X-Hop, keep-alive''" by (simp add: test_header_values)
    then have "ToLower (strings_TrimSpace t)
        \<in> set (map (\<lambda>t. ToLower (strings_TrimSpace t)) (Split 44 (str ''X-Hop, keep-alive'')))"
      using t by simp
    then show "ToLower (strings_TrimSpace t) \<noteq> k" unfolding tokens using that by auto
  qed
  have a: "ToLower (str ''X-Trace-Id'') \<notin> set (map str [''authorization'', ''cookie'', ''api-key'', ''x-api-key'', ''connection'',
       ''keep-alive'', ''proxy-authenticate'', ''proxy-authorization'', ''te'', ''trailer'',
       ''transfer-encoding'', ''upgrade'', ''proxy-connection'', ''host'', ''content-length''])
      \<and> (\<forall>v \<in> set (Header_Values test_inbound_header (str ''Connection'')).
           \<forall>t \<in> set (Split 44 v). ToLower (strings_TrimSpace t) \<noteq> ToLower (str ''X-Trace-Id''))"
    using other[of "ToLower (str ''X-Trace-Id'')"] by (simp add: ToLower_def str_def)
  have b: "ToLower (str ''X-Multi'') \<notin> set (map str [''authorization'', ''cookie'', ''api-key'', ''x-api-key'', ''connection'',
       ''keep-alive'', ''proxy-authenticate'', ''proxy-authorization'', ''te'', ''trailer'',
       ''transfer-encoding'', ''upgrade'', ''proxy-connection'', ''host'', ''content-length''])
      \<and> (\<forall>v \<in> set (Header_Values test_inbound_header (str ''Connection'')).
           \<forall>t \<in> set (Split 44 v). ToLower (strings_TrimSpace t) \<noteq> ToLower (str ''X-Multi''))"
    using other[of "ToLower (str ''X-Multi'')"] by (simp add: ToLower_def str_def)
  have v: "str ''X-Hop, keep-alive'' \<in> set (Header_Values test_inbound_header (str ''Connection''))"
    by (simp add: test_header_values)
  have t: "str ''X-Hop'' \<in> set (Split 44 (str ''X-Hop, keep-alive''))"
    by (simp add: str_def)
  have n: "strings_TrimSpace (str ''X-Hop'') \<noteq> []
      \<and> ToLower (strings_TrimSpace (str ''X-Hop'')) = ToLower (str ''X-Hop'')"
    by (simp add: strings_TrimSpace_def unicode_IsSpace_def str_def)
  have 1: "copyHeadersExcept Map.empty test_inbound_header
       (buildPassThroughHeaderDenySet test_inbound_header []) (str ''X-Trace-Id'')
     = Some [str ''abc'']"
    using T a test_header_values by blast
  have 2: "copyHeadersExcept Map.empty test_inbound_header
       (buildPassThroughHeaderDenySet test_inbound_header []) (str ''X-Multi'')
     = Some [str ''a'', str ''b'']"
    using T b test_header_values by blast
  have 3: "copyHeadersExcept Map.empty test_inbound_header
       (buildPassThroughHeaderDenySet test_inbound_header []) (str ''X-Hop'') = None"
    using T v t n by blast
  have 4: "copyHeadersExcept Map.empty test_inbound_header
       (buildPassThroughHeaderDenySet test_inbound_header []) (str ''Authorization'') = None"
    using T by simp
  show ?thesis using 1 2 3 4 by simp
qed

subsection \<open>URL composition\<close>

lemma url_path_components:
  assumes scheme: "scheme \<noteq> []" "\<forall>r \<in> set scheme. r \<noteq> 58 \<and> \<not> url_delim r"
    and authority: "\<forall>r \<in> set authority. \<not> url_delim r"
    and path: "path = [] \<or> hd path = 47" "\<forall>r \<in> set path. r \<noteq> 63 \<and> r \<noteq> 35"
    and tail: "tail = [] \<or> hd tail = 63 \<or> hd tail = 35"
  shows "url_path (scheme @ str ''://'' @ authority @ path @ tail) = path"
proof -
  let ?P = "\<lambda>r. r \<noteq> 58 \<and> \<not> url_delim r"
  let ?rest = "authority @ path @ tail"
  let ?u = "scheme @ str ''://'' @ authority @ path @ tail"
  have u: "?u = scheme @ 58 # 47 # 47 # ?rest" by (simp add: str_def)
  have name: "takeWhile ?P ?u = scheme"
    unfolding u using scheme(2) by (simp add: takeWhile_append2)
  have after_name: "dropWhile ?P ?u = 58 # 47 # 47 # ?rest"
    unfolding u using scheme(2) by (simp add: dropWhile_append2)
  have stop: "path @ tail = [] \<or> url_delim (hd (path @ tail))"
    using path(1) tail by (cases path; cases tail) (auto simp add: url_delim_def)
  have after_authority: "dropWhile (\<lambda>r. \<not> url_delim r) ?rest = path @ tail"
  proof -
    have "dropWhile (\<lambda>r. \<not> url_delim r) ?rest = dropWhile (\<lambda>r. \<not> url_delim r) (path @ tail)"
      using authority by (simp add: dropWhile_append2)
    also have "\<dots> = path @ tail" using stop by (cases "path @ tail") auto
    finally show ?thesis .
  qed
  have cut: "takeWhile (\<lambda>r. r \<noteq> 63 \<and> r \<noteq> 35) (path @ tail) = path"
  proof -
    have "takeWhile (\<lambda>r. r \<noteq> 63 \<and> r \<noteq> 35) (path @ tail)
        = path @ takeWhile (\<lambda>r. r \<noteq> 63 \<and> r \<noteq> 35) tail"
      using path(2) by (simp add: takeWhile_append2)
    also have "\<dots> = path" using tail by (cases tail) auto
    finally show ?thesis .
  qed
  have colon: "HasPrefix (58 # 47 # 47 # ?rest) (str '':'')"
    and slashes: "HasPrefix (47 # 47 # ?rest) (str ''//'')"
    by (simp_all add: HasPrefix_def str_def)
  show ?thesis
    unfolding url_path_def Let_def name after_name
    using scheme(1) colon slashes by (simp add: after_authority cut)
qed

text \<open>
  Claim C2. For an OpenAI channel whose base URL has no path component, or only \<^verbatim>\<open>/\<close>,
  the request URL is appended unchanged (a trailing slash of the base URL dropped), so
  \<^verbatim>\<open>/v1/...\<close> is kept; when the base URL has any other path, the leading \<^verbatim>\<open>/v1\<close> is
  stripped from the request URL before appending. For any other channel the request URL
  is appended unchanged whatever the base URL's path. The Cloudflare AI gateway shape is
  handled before these rules. The path component of a base URL made of a scheme, an
  authority, a path and possibly a query or a fragment is that path, whatever the query
  or fragment holds; so a base URL \<^verbatim>\<open>scheme://authority\<close> with nothing or only \<^verbatim>\<open>/\<close>
  after the authority keeps \<^verbatim>\<open>/v1\<close>, and one with a longer path loses it.
\<close>
theorem GetFullRequestURL_rules:
  "(\<not> HasPrefix baseURL (str ''https://gateway.ai.cloudflare.com'')
      \<and> (url_path baseURL = [] \<or> url_path baseURL = str ''/'') \<longrightarrow>
        GetFullRequestURL baseURL requestURL ChannelTypeOpenAI
          = TrimSuffix baseURL (str ''/'') @ requestURL)
   \<and> (\<not> HasPrefix baseURL (str ''https://gateway.ai.cloudflare.com'')
      \<and> url_path baseURL \<noteq> [] \<and> url_path baseURL \<noteq> str ''/'' \<longrightarrow>
        GetFullRequestURL baseURL requestURL ChannelTypeOpenAI
          = TrimSuffix baseURL (str ''/'') @ TrimPrefix requestURL (str ''/v1''))
   \<and> (channelType \<noteq> ChannelTypeOpenAI \<longrightarrow>
        GetFullRequestURL baseURL requestURL channelType = baseURL @ requestURL)
   \<and> (HasPrefix baseURL (str ''https://gateway.ai.cloudflare.com'') \<longrightarrow>
        GetFullRequestURL baseURL requestURL ChannelTypeOpenAI
          = baseURL @ TrimPrefix requestURL (str ''/v1''))
   \<and> TrimPrefix (str ''/v1'' @ rest) (str ''/v1'') = rest
   \<and> (\<not> HasSuffix baseURL (str ''/'') \<longrightarrow> TrimSuffix baseURL (str ''/'') = baseURL)
   \<and> TrimSuffix (host @ str ''/'') (str ''/'') = host
   \<and> (scheme \<noteq> [] \<and> (\<forall>r \<in> set scheme. r \<noteq> 58 \<and> \<not> url_delim r)
        \<and> (\<forall>r \<in> set authority. \<not> url_delim r)
        \<and> (path = [] \<or> hd path = 47) \<and> (\<forall>r \<in> set path. r \<noteq> 63 \<and> r \<noteq> 35)
        \<and> (tail = [] \<or> hd tail = 63 \<or> hd tail = 35) \<longrightarrow>
        url_path (scheme @ str ''://'' @ authority @ path @ tail) = path
        \<and> (\<not> HasPrefix (scheme @ str ''://'' @ authority @ path @ tail)
                (str ''https://gateway.ai.cloudflare.com'') \<longrightarrow>
             GetFullRequestURL (scheme @ str ''://'' @ authority @ path @ tail)
                 (str ''/v1'' @ rest) ChannelTypeOpenAI
               = TrimSuffix (scheme @ str ''://'' @ authority @ path @ tail) (str ''/'')
                 @ (if path = [] \<or> path = str ''/'' then str ''/v1'' @ rest else rest)))"
proof -
  have c1: "\<not> HasPrefix baseURL (str ''https://gateway.ai.cloudflare.com'')
      \<and> (url_path baseURL = [] \<or> url_path baseURL = str ''/'') \<longrightarrow>
        GetFullRequestURL baseURL requestURL ChannelTypeOpenAI
          = TrimSuffix baseURL (str ''/'') @ requestURL"
    by (simp add: GetFullRequestURL_def)
  have c2: "\<not> HasPrefix baseURL (str ''https://gateway.ai.cloudflare.com'')
      \<and> url_path baseURL \<noteq> [] \<and> url_path baseURL \<noteq> str ''/'' \<longrightarrow>
        GetFullRequestURL baseURL requestURL ChannelTypeOpenAI
          = TrimSuffix baseURL (str ''/'') @ TrimPrefix requestURL (str ''/v1'')"
    by (simp add: GetFullRequestURL_def)
  have c3: "channelType \<noteq> ChannelTypeOpenAI \<longrightarrow>
        GetFullRequestURL baseURL requestURL channelType = baseURL @ requestURL"
    by (simp add: GetFullRequestURL_def)
  have c4: "HasPrefix baseURL (str ''https://gateway.ai.cloudflare.com'') \<longrightarrow>
        GetFullRequestURL baseURL requestURL ChannelTypeOpenAI
          = baseURL @ TrimPrefix requestURL (str ''/v1'')"
    by (simp add: GetFullRequestURL_def)
  have c5: "TrimPrefix (str ''/v1'' @ rest) (str ''/v1'') = rest"
    by (simp add: TrimPrefix_def HasPrefix_def)
  have c6: "\<not> HasSuffix baseURL (str ''/'') \<longrightarrow> TrimSuffix baseURL (str ''/'') = baseURL"
    by (simp add: TrimSuffix_def)
  have c7: "TrimSuffix (host @ str ''/'') (str ''/'') = host"
    by (simp add: TrimSuffix_def HasSuffix_def)
  have c8: "scheme \<noteq> [] \<and> (\<forall>r \<in> set scheme. r \<noteq> 58 \<and> \<not> url_delim r)
        \<and> (\<forall>r \<in> set authority. \<not> url_delim r)
        \<and> (path = [] \<or> hd path = 47) \<and> (\<forall>r \<in> set path. r \<noteq> 63 \<and> r \<noteq> 35)
        \<and> (tail = [] \<or> hd tail = 63 \<or> hd tail = 35) \<longrightarrow>
        url_path (scheme @ str ''://'' @ authority @ path @ tail) = path
        \<and> (\<not> HasPrefix (scheme @ str ''://'' @ authority @ path @ tail)
                (str ''https://gateway.ai.cloudflare.com'') \<longrightarrow>
             GetFullRequestURL (scheme @ str ''://'' @ authority @ path @ tail)
                 (str ''/v1'' @ rest) ChannelTypeOpenAI
               = TrimSuffix (scheme @ str ''://'' @ authority @ path @ tail) (str ''/'')
                 @ (if path = [] \<or> path = str ''/'' then str ''/v1'' @ rest else rest))"
  proof (intro impI conjI)
    assume a: "scheme \<noteq> [] \<and> (\<forall>r \<in> set scheme. r \<noteq> 58 \<and> \<not> url_delim r)
        \<and> (\<forall>r \<in> set authority. \<not> url_delim r)
        \<and> (path = [] \<or> hd path = 47) \<and> (\<forall>r \<in> set path. r \<noteq> 63 \<and> r \<noteq> 35)
        \<and> (tail = [] \<or> hd tail = 63 \<or> hd tail = 35)"
    then show p: "url_path (scheme @ str ''://'' @ authority @ path @ tail) = path"
      by (intro url_path_components) simp_all
    assume "\<not> HasPrefix (scheme @ str ''://'' @ authority @ path @ tail)
                (str ''https://gateway.ai.cloudflare.com'')"
    then show "GetFullRequestURL (scheme @ str ''://'' @ authority @ path @ tail)
                 (str ''/v1'' @ rest) ChannelTypeOpenAI
               = TrimSuffix (scheme @ str ''://'' @ authority @ path @ tail) (str ''/'')
                 @ (if path = [] \<or> path = str ''/'' then str ''/v1'' @ rest else rest)"
      unfolding GetFullRequestURL_def p using c5 by simp
  qed
  show ?thesis
    by (intro conjI) (rule c1, rule c2, rule c3, rule c4, rule c5, rule c6, rule c7, rule c8)
qed

lemma url_path_examples:
  "url_path (str ''https://api.openai.com'') = []
   \<and> url_path (str ''https://api.openai.com/'') = str ''/''
   \<and> url_path (str ''https://api.openai.com/v2'') = str ''/v2''
   \<and> url_path (str ''https://api.openai.com/v2/'') = str ''/v2/''
   \<and> url_path (str ''https://api.openai.com?next=/a'') = []
   \<and> url_path (str ''https://api.openai.com/?x=1'') = str ''/''
   \<and> url_path (str ''https://api.openai.com/v2#/a'') = str ''/v2''"
  by (simp add: url_path_def url_delim_def HasPrefix_def str_def)

lemma not_cloudflare:
  "\<not> HasPrefix (str ''https://api.openai.com'') (str ''https://gateway.ai.cloudflare.com'')
   \<and> \<not> HasPrefix (str ''https://api.openai.com/'') (str ''https://gateway.ai.cloudflare.com'')
   \<and> \<not> HasPrefix (str ''https://api.openai.com/v2'') (str ''https://gateway.ai.cloudflare.com'')
   \<and> \<not> HasPrefix (str ''https://api.openai.com/v2/'') (str ''https://gateway.ai.cloudflare.com'')
   \<and> HasPrefix (str ''https://gateway.ai.cloudflare.com/account/gateway/openai'')
        (str ''https://gateway.ai.cloudflare.com'')"
  by (simp add: HasPrefix_def str_def)

theorem GetFullRequestURL_rules_witness:
  "GetFullRequestURL (str ''https://gateway.ai.cloudflare.com/account/gateway/openai'')
       (str ''/v1/chat/completions'') ChannelTypeOpenAI
     = str ''https://gateway.ai.cloudflare.com/account/gateway/openai/chat/completions''
   \<and> GetFullRequestURL (str ''https://api.openai.com'') (str ''/v1/chat/completions'')
       ChannelTypeOpenAI = str ''https://api.openai.com/v1/chat/completions''
   \<and> GetFullRequestURL (str ''https://api.openai.com/'') (str ''/v1/chat/completions'')
       ChannelTypeOpenAI = str ''https://api.openai.com/v1/chat/completions''
   \<and> GetFullRequestURL (str ''https://api.openai.com/v2'') (str ''/v1/chat/completions'')
       ChannelTypeOpenAI = str ''https://api.openai.com/v2/chat/completions''
   \<and> GetFullRequestURL (str ''https://api.openai.com/v2/'') (str ''/v1/chat/completions'')
       ChannelTypeOpenAI = str ''https://api.openai.com/v2/chat/completions''
   \<and> GetFullRequestURL (str ''https://openrouter.ai/api'') (str ''/v1/chat/completions'')
       ChannelTypeOpenRouter = str ''https://openrouter.ai/api/v1/chat/completions''
   \<and> GetFullRequestURL (str ''https://api.openai.com?next=/a'') (str ''/v1/chat/completions'')
       ChannelTypeOpenAI = str ''https://api.openai.com?next=/a/v1/chat/completions''
   \<and> GetFullRequestURL (str ''https://x/y'') (str ''/v1/z'') ChannelTypeOpenAI
       = str ''https://x/y/z''"
proof -
  have e: "TrimPrefix (str ''/v1/chat/completions'') (str ''/v1'') = str ''/chat/completions''"
    "TrimSuffix (str ''https://api.openai.com'') (str ''/'') = str ''https://api.openai.com''"
    "TrimSuffix (str ''https://api.openai.com/'') (str ''/'') = str ''https://api.openai.com''"
    "TrimSuffix (str ''https://api.openai.com/v2'') (str ''/'') = str ''https://api.openai.com/v2''"
    "TrimSuffix (str ''https://api.openai.com/v2/'') (str ''/'') = str ''https://api.openai.com/v2''"
    by (simp_all add: TrimPrefix_def TrimSuffix_def HasPrefix_def HasSuffix_def str_def)
  have p: "str ''/v2'' \<noteq> [] \<and> str ''/v2'' \<noteq> str ''/'' \<and> str ''/v2/'' \<noteq> []
      \<and> str ''/v2/'' \<noteq> str ''/''"
    by (simp add: str_def)
  have 1: "GetFullRequestURL (str ''https://gateway.ai.cloudflare.com/account/gateway/openai'')
       (str ''/v1/chat/completions'') ChannelTypeOpenAI
     = str ''https://gateway.ai.cloudflare.com/account/gateway/openai'' @ str ''/chat/completions''"
    using GetFullRequestURL_rules[of "str ''https://gateway.ai.cloudflare.com/account/gateway/openai''"
        "str ''/v1/chat/completions''"] not_cloudflare e(1) by simp
  have 2: "GetFullRequestURL (str ''https://api.openai.com'') (str ''/v1/chat/completions'')
       ChannelTypeOpenAI = str ''https://api.openai.com'' @ str ''/v1/chat/completions''"
    using GetFullRequestURL_rules[of "str ''https://api.openai.com''"
        "str ''/v1/chat/completions''"] not_cloudflare url_path_examples e(2) by simp
  have 3: "GetFullRequestURL (str ''https://api.openai.com/'') (str ''/v1/chat/completions'')
       ChannelTypeOpenAI = str ''https://api.openai.com'' @ str ''/v1/chat/completions''"
    using GetFullRequestURL_rules[of "str ''https://api.openai.com/''"
        "str ''/v1/chat/completions''"] not_cloudflare url_path_examples e(3) by simp
  have 4: "GetFullRequestURL (str ''https://api.openai.com/v2'') (str ''/v1/chat/completions'')
       ChannelTypeOpenAI = str ''https://api.openai.com/v2'' @ str ''/chat/completions''"
    using GetFullRequestURL_rules[of "str ''https://api.openai.com/v2''"
        "str ''/v1/chat/completions''"] not_cloudflare url_path_examples e(1,4) p by simp
  have 5: "GetFullRequestURL (str ''https://api.openai.com/v2/'') (str ''/v1/chat/completions'')
       ChannelTypeOpenAI = str ''https://api.openai.com/v2'' @ str ''/chat/completions''"
    using GetFullRequestURL_rules[of "str ''https://api.openai.com/v2/''"
        "str ''/v1/chat/completions''"] not_cloudflare url_path_examples e(1,5) p by simp
  have 6: "GetFullRequestURL (str ''https://openrouter.ai/api'') (str ''/v1/chat/completions'')
       ChannelTypeOpenRouter = str ''https://openrouter.ai/api'' @ str ''/v1/chat/completions''"
    using GetFullRequestURL_rules[of "str ''https://openrouter.ai/api''" _ ChannelTypeOpenRouter
        "str ''/v1/chat/completions''"] by simp
  have 7: "GetFullRequestURL (str ''https://api.openai.com?next=/a'') (str ''/v1/chat/completions'')
       ChannelTypeOpenAI = str ''https://api.openai.com?next=/a/v1/chat/completions''"
    using GetFullRequestURL_rules[where scheme = "str ''https''"
        and authority = "str ''api.openai.com''" and path = "[]" and tail = "str ''?next=/a''"
        and rest = "str ''/chat/completions''"]
    by (simp add: str_def url_delim_def HasPrefix_def TrimSuffix_def HasSuffix_def)
  have 8: "GetFullRequestURL (str ''https://x/y'') (str ''/v1/z'') ChannelTypeOpenAI
       = str ''https://x/y/z''"
    using GetFullRequestURL_rules[where scheme = "str ''https''"
        and authority = "str ''x''" and path = "str ''/y''" and tail = "[]"
        and rest = "str ''/z''"]
    by (simp add: str_def url_delim_def HasPrefix_def TrimSuffix_def HasSuffix_def)
  show ?thesis unfolding 1 2 3 4 5 6 7 8 by (simp add: str_def)
qed

subsection \<open>Header override templates\<close>

lemma placeholder_form:
  "clientHeaderPlaceholder (str ''{client_header:'' @ H @ str ''}'') = Some (strings_TrimSpace H)"
proof -
  let ?t = "str ''{client_header:'' @ H @ str ''}''"
  have "strings_TrimSpace ?t = ?t"
    by (rule TrimSpace_id) (simp_all add: str_def unicode_IsSpace_def)
  then show ?thesis
    by (simp add: clientHeaderPlaceholder_def Let_def HasPrefix_def HasSuffix_def)
       (simp add: str_def)
qed

lemma resolveTemplate_test:
  "resolveTemplate True request template
   = (case clientHeaderPlaceholder template of Some h \<Rightarrow> [] | None \<Rightarrow> template)"
  by (simp add: resolveTemplate_def split: option.splits)

lemma channel_test_ignores_request:
  assumes "IsChannelTest info"
  shows "processHeaderOverride info request = processHeaderOverride info request'"
proof -
  have t: "IsChannelTest info = True" using assms by simp
  show ?thesis unfolding processHeaderOverride_def t resolveTemplate_test by (rule refl)
qed

text \<open>
  Claim C9. A template of the form \<^verbatim>\<open>{client_header:H}\<close> resolves to the inbound
  request's value of header H for a real relay request; during a channel test it
  resolves to empty, the override entry is left out of the computed header map, and the
  computed header map does not depend on the inbound request's headers at all.
\<close>
theorem client_header_placeholder:
  assumes "name \<noteq> str ''*''"
  shows "clientHeaderPlaceholder (str ''{client_header:'' @ H @ str ''}'') = Some (strings_TrimSpace H)
   \<and> resolveTemplate False request (str ''{client_header:'' @ H @ str ''}'')
       = Header_Get request (strings_TrimSpace H)
   \<and> resolveTemplate True request (str ''{client_header:'' @ H @ str ''}'') = []
   \<and> (Header_Get request (strings_TrimSpace H) \<noteq> [] \<longrightarrow>
        processHeaderOverride
          \<lparr>IsChannelTest = False,
           HeadersOverride = [(name, str ''{client_header:'' @ H @ str ''}'')]\<rparr> request name
        = Some (Header_Get request (strings_TrimSpace H)))
   \<and> processHeaderOverride
        \<lparr>IsChannelTest = True,
         HeadersOverride = [(name, str ''{client_header:'' @ H @ str ''}'')]\<rparr> request name
      = None
   \<and> (IsChannelTest info \<longrightarrow>
        processHeaderOverride info request = processHeaderOverride info Map.empty)"
  using assms channel_test_ignores_request[of info request Map.empty]
  by (simp add: resolveTemplate_def placeholder_form processHeaderOverride_def Let_def)

theorem client_header_placeholder_witness:
  "str ''X-Upstream-Trace'' \<noteq> str ''*''
   \<and> processHeaderOverride
        \<lparr>IsChannelTest = False,
         HeadersOverride = [(str ''X-Upstream-Trace'', str ''{client_header:X-Trace-Id}'')]\<rparr>
        (Header_Set Map.empty (str ''X-Trace-Id'') (str ''trace-123'')) (str ''X-Upstream-Trace'')
      = Some (str ''trace-123'')
   \<and> processHeaderOverride
        \<lparr>IsChannelTest = True,
         HeadersOverride = [(str ''X-Upstream-Trace'', str ''{client_header:X-Trace-Id}'')]\<rparr>
        (Header_Set Map.empty (str ''X-Trace-Id'') (str ''trace-123'')) (str ''X-Upstream-Trace'')
      = None"
proof -
  have n: "str ''X-Upstream-Trace'' \<noteq> str ''*''" by (simp add: str_def)
  have t: "str ''{client_header:X-Trace-Id}'' = str ''{client_header:'' @ str ''X-Trace-Id'' @ str ''}''"
    by (simp add: str_def)
  have s: "strings_TrimSpace (str ''X-Trace-Id'') = str ''X-Trace-Id''"
    by (simp add: strings_TrimSpace_def unicode_IsSpace_def str_def)
  have g: "Header_Get (Header_Set Map.empty (str ''X-Trace-Id'') (str ''trace-123''))
      (str ''X-Trace-Id'') = str ''trace-123''"
    by (simp add: Header_Get_def Header_Values_def Header_Set_def)
  have ne: "str ''trace-123'' \<noteq> []" by (simp add: str_def)
  show ?thesis
    using client_header_placeholder[OF n, of "str ''X-Trace-Id''"
        "Header_Set Map.empty (str ''X-Trace-Id'') (str ''trace-123'')"
        "\<lparr>IsChannelTest = False, HeadersOverride = []\<rparr>"]
    unfolding t[symmetric] s g
    using n ne by simp
qed

end
